theory Spec2Isabelle
  imports Main
begin

section \<open>The editor API the extension is written against\<close>

text \<open>
  \<^verbatim>\<open>smartCursorUndo.ts\<close> works on the value classes of the \<^verbatim>\<open>vscode\<close> module: \<^verbatim>\<open>Position\<close>,
  \<^verbatim>\<open>Range\<close> and \<^verbatim>\<open>Selection\<close>. They are modelled after the published API:
  a position is a line and a character, both non-negative; a range orders its two
  positions into \<^verbatim>\<open>start\<close> and \<^verbatim>\<open>end\<close>; a selection is a range that also remembers which
  of the two positions is the anchor and which the active one. \<^verbatim>\<open>Selection\<close> declares no
  \<^verbatim>\<open>isEqual\<close>, \<^verbatim>\<open>isEmpty\<close> or \<^verbatim>\<open>contains\<close> of its own: it inherits them from \<^verbatim>\<open>Range\<close>, where
  they read \<^verbatim>\<open>start\<close> and \<^verbatim>\<open>end\<close>.

  Line numbers, characters and document versions are JavaScript numbers holding small
  non-negative integers, on which the arithmetic of the source is exact; differences are
  taken in \<^typ>\<open>int\<close>. Timestamps (\<^verbatim>\<open>new Date().getTime()\<close>) are integers.
\<close>

record Position =
  line :: nat
  character :: nat

text \<open>\<^verbatim>\<open>Position.isEqual\<close>, \<^verbatim>\<open>Position.isBefore\<close> and \<^verbatim>\<open>Position.with(line)\<close>, which replaces
  the line and keeps the character.\<close>

definition pos_isEqual :: "Position \<Rightarrow> Position \<Rightarrow> bool" where
  "pos_isEqual p q \<longleftrightarrow> line p = line q \<and> character p = character q"

definition isBefore :: "Position \<Rightarrow> Position \<Rightarrow> bool" where
  "isBefore p q \<longleftrightarrow> line p < line q \<or> (line p = line q \<and> character p < character q)"

definition pos_with :: "Position \<Rightarrow> nat \<Rightarrow> Position" where
  "pos_with p l = p\<lparr>line := l\<rparr>"

record Range =
  range_start :: Position
  range_end :: Position

text \<open>\<^verbatim>\<open>new Range(a, b)\<close> stores the earlier position as \<^verbatim>\<open>start\<close>.\<close>

definition newRange :: "Position \<Rightarrow> Position \<Rightarrow> Range" where
  "newRange a b =
     (if isBefore a b then \<lparr>range_start = a, range_end = b\<rparr>
      else \<lparr>range_start = b, range_end = a\<rparr>)"

text \<open>\<^verbatim>\<open>Range.contains(position)\<close>: both ends are included.\<close>

definition contains :: "Range \<Rightarrow> Position \<Rightarrow> bool" where
  "contains r p \<longleftrightarrow> \<not> isBefore p (range_start r) \<and> \<not> isBefore (range_end r) p"

definition range_isEqual :: "Range \<Rightarrow> Range \<Rightarrow> bool" where
  "range_isEqual r1 r2 \<longleftrightarrow>
     pos_isEqual (range_start r1) (range_start r2) \<and> pos_isEqual (range_end r1) (range_end r2)"

record Selection =
  anchor :: Position
  active :: Position

text \<open>\<^verbatim>\<open>new Selection(anchor, active)\<close> calls \<^verbatim>\<open>super(anchor, active)\<close>: the range of a
  selection. \<^verbatim>\<open>isEmpty\<close> and \<^verbatim>\<open>isEqual\<close> on a selection are those of its range.\<close>

definition sel_range :: "Selection \<Rightarrow> Range" where
  "sel_range s = newRange (anchor s) (active s)"

definition isEmpty :: "Selection \<Rightarrow> bool" where
  "isEmpty s \<longleftrightarrow> pos_isEqual (range_start (sel_range s)) (range_end (sel_range s))"

definition sel_isEqual :: "Selection \<Rightarrow> Selection \<Rightarrow> bool" where
  "sel_isEqual s t \<longleftrightarrow> range_isEqual (sel_range s) (sel_range t)"

text \<open>A document: its uri (whose string is the document id), its version and the
  lengths of its lines, which is all \<^verbatim>\<open>validateRange\<close> reads of the text.\<close>

record TextDocument =
  uri :: string
  version :: nat
  lineLengths :: "nat list"

text \<open>\<^verbatim>\<open>TextDocument.validatePosition\<close> and \<^verbatim>\<open>validateRange\<close>: a position past the last line
  becomes the end of the last line, a character past the end of its line becomes the end
  of that line.\<close>

definition validatePosition :: "TextDocument \<Rightarrow> Position \<Rightarrow> Position" where
  "validatePosition doc p =
     (if lineLengths doc = [] then \<lparr>line = 0, character = 0\<rparr>
      else if line p \<ge> length (lineLengths doc)
        then \<lparr>line = length (lineLengths doc) - 1, character = last (lineLengths doc)\<rparr>
      else if character p > lineLengths doc ! line p
        then \<lparr>line = line p, character = lineLengths doc ! line p\<rparr>
      else p)"

definition validateRange :: "TextDocument \<Rightarrow> Range \<Rightarrow> Range" where
  "validateRange doc r =
     newRange (validatePosition doc (range_start r)) (validatePosition doc (range_end r))"

record TextEditor =
  document :: TextDocument
  editorSelections :: "Selection list"
  visibleRanges :: "Range list"

text \<open>The event of \<^verbatim>\<open>onDidChangeTextEditorSelection\<close>: the editor and its new selections.\<close>

record TextEditorSelectionChangeEvent =
  textEditor :: TextEditor
  eventSelections :: "Selection list"

datatype TextEditorRevealType = Default | InCenter

text \<open>Reading index \<open>i\<close> of a JavaScript array gives \<^verbatim>\<open>undefined\<close> out of range; reading a
  property of \<^verbatim>\<open>undefined\<close> throws a \<^verbatim>\<open>TypeError\<close>. \<open>Error\<close> is the error the source throws
  itself.\<close>

datatype error = Error | TypeError

definition at :: "'a list \<Rightarrow> nat \<Rightarrow> 'a option" where
  "at xs i = (if i < length xs then Some (xs ! i) else None)"

section \<open>The data of smartCursorUndo.ts\<close>

record SelectionsHistory =
  previousOfLastSelections :: "Selection list"
  previousOfLastDocumentVersion :: nat
  lastSelections :: "Selection list"
  lastDocumentVersion :: nat

record UndoItem =
  selections :: "Selection list"

text \<open>The stacks are arrays whose last element is the top: \<^verbatim>\<open>push\<close> appends, \<^verbatim>\<open>pop\<close>
  removes the last element and \<^verbatim>\<open>shift\<close> the first. The counter starts at 0, is
  incremented, and decremented only when positive: a natural number.\<close>

record DocumentHistory =
  selectionsHistory :: SelectionsHistory
  undoStack :: "UndoItem list"
  redoStack :: "UndoItem list"
  lastSelectionsTimestamp :: int
  undoRedoCounter :: nat

type_synonym AllDocumentsHistory = "string \<Rightarrow> DocumentHistory option"

definition MAX_STACK_SIZE :: nat where
  "MAX_STACK_SIZE = 999"

definition FOUR_SECONDS :: int where
  "FOUR_SECONDS = 4 * 1000"

definition NEARLY_VISIBLE_LINES :: nat where
  "NEARLY_VISIBLE_LINES = 15"

section \<open>The significance classifier\<close>

text \<open>The three loops of \<^verbatim>\<open>isLastSelectionsChangeSignificant\<close>, each over the indices it
  visits in order, named by the rule numbers of the comments in the source (rules 3 and 4, 5
  and 6 there are rules 3, 4 and 5 of the specification). \<open>Inr True\<close> is \<^verbatim>\<open>return true\<close> from
  inside the loop, \<open>Inr False\<close> is the loop running to its end. An element is read only
  where the source reads it: \<^verbatim>\<open>&&\<close> does not evaluate its right operand when the left one is
  false.\<close>

fun rules_3_4_loop :: "Selection list \<Rightarrow> Selection list \<Rightarrow> nat list \<Rightarrow> error + bool" where
  "rules_3_4_loop sels lastSels [] = Inr False"
| "rules_3_4_loop sels lastSels (i # is) =
     (case (at sels i, at lastSels i) of
        (Some s, Some l) \<Rightarrow>
          if \<not> isEmpty s \<and> isEmpty l then Inr True
          else if isEmpty s \<and> \<not> isEmpty l then Inr True
          else rules_3_4_loop sels lastSels is
      | _ \<Rightarrow> Inl TypeError)"

fun rule_5_loop :: "Selection list \<Rightarrow> Selection list \<Rightarrow> nat list \<Rightarrow> error + bool" where
  "rule_5_loop sels lastSels [] = Inr False"
| "rule_5_loop sels lastSels (i # is) =
     (case at sels i of
        None \<Rightarrow> Inl TypeError
      | Some s \<Rightarrow>
          if isEmpty s then rule_5_loop sels lastSels is
          else (case at lastSels i of
                  None \<Rightarrow> Inl TypeError
                | Some l \<Rightarrow>
                    if \<not> pos_isEqual (anchor s) (anchor l) \<and> \<not> pos_isEqual (active s) (active l)
                    then Inr True
                    else rule_5_loop sels lastSels is))"

fun rule_6_loop ::
  "Selection list \<Rightarrow> Selection list \<Rightarrow> Selection list \<Rightarrow> nat list \<Rightarrow> error + bool" where
  "rule_6_loop sels lastSels prevSels [] = Inr False"
| "rule_6_loop sels lastSels prevSels (i # is) =
     (case (at lastSels i, at prevSels i, at sels i) of
        (Some l, Some p, Some s) \<Rightarrow>
          (let diff1Lines = \<bar>int (line (active l)) - int (line (active p))\<bar>;
               diff2Lines = \<bar>int (line (active s)) - int (line (active l))\<bar>
           in if diff1Lines * 5 < diff2Lines \<or> diff1Lines > diff2Lines * 5 then Inr True
              else rule_6_loop sels lastSels prevSels is)
      | _ \<Rightarrow> Inl TypeError)"

definition isLastSelectionsChangeSignificant ::
  "SelectionsHistory \<Rightarrow> Selection list \<Rightarrow> nat \<Rightarrow> error + bool" where
  "isLastSelectionsChangeSignificant h sels documentVersion =
     (if length sels \<noteq> length (lastSelections h) then Inr True
      else if length (lastSelections h) \<noteq> length (previousOfLastSelections h) then Inr True
      else case rules_3_4_loop sels (lastSelections h) [0..<length sels] of
        Inl e \<Rightarrow> Inl e
      | Inr True \<Rightarrow> Inr True
      | Inr False \<Rightarrow>
      (case rule_5_loop sels (lastSelections h) [0..<length sels] of
        Inl e \<Rightarrow> Inl e
      | Inr True \<Rightarrow> Inr True
      | Inr False \<Rightarrow>
      (case rule_6_loop sels (lastSelections h) (previousOfLastSelections h)
              [0..<length (lastSelections h)] of
        Inl e \<Rightarrow> Inl e
      | Inr True \<Rightarrow> Inr True
      | Inr False \<Rightarrow>
        if previousOfLastDocumentVersion h = lastDocumentVersion h
             \<and> lastDocumentVersion h \<noteq> documentVersion then Inr True
        else if previousOfLastDocumentVersion h \<noteq> lastDocumentVersion h
             \<and> lastDocumentVersion h = documentVersion then Inr True
        else Inr False)))"

text \<open>The classifier as section 4.2 of the specification words it: its rules 1 to 7, one
  disjunct each in that order, and false otherwise. It is compared with the function
  above.\<close>

definition spec_isSignificant :: "SelectionsHistory \<Rightarrow> Selection list \<Rightarrow> nat \<Rightarrow> bool" where
  "spec_isSignificant w cur curVer \<longleftrightarrow>
     length cur \<noteq> length (lastSelections w)
   \<or> length (lastSelections w) \<noteq> length (previousOfLastSelections w)
   \<or> (\<exists>i \<in> {0..<length cur}.
         (anchor (cur ! i) = active (cur ! i))
           \<noteq> (anchor (lastSelections w ! i) = active (lastSelections w ! i)))
   \<or> (\<exists>i \<in> {0..<length cur}.
         anchor (cur ! i) \<noteq> active (cur ! i)
       \<and> anchor (cur ! i) \<noteq> anchor (lastSelections w ! i)
       \<and> active (cur ! i) \<noteq> active (lastSelections w ! i))
   \<or> (\<exists>i \<in> {0..<length cur}.
         \<bar>int (line (active (lastSelections w ! i)))
              - int (line (active (previousOfLastSelections w ! i)))\<bar> * 5
           < \<bar>int (line (active (cur ! i))) - int (line (active (lastSelections w ! i)))\<bar>
       \<or> \<bar>int (line (active (lastSelections w ! i)))
              - int (line (active (previousOfLastSelections w ! i)))\<bar>
           > \<bar>int (line (active (cur ! i))) - int (line (active (lastSelections w ! i)))\<bar> * 5)
   \<or> (previousOfLastDocumentVersion w = lastDocumentVersion w \<and> lastDocumentVersion w \<noteq> curVer)
   \<or> (previousOfLastDocumentVersion w \<noteq> lastDocumentVersion w \<and> lastDocumentVersion w = curVer)"

section \<open>The history manager\<close>

text \<open>The state the module works on: its table \<^verbatim>\<open>documentsHistory\<close>, the editor that
  \<^verbatim>\<open>vscode.window.activeTextEditor\<close> returns, and the calls of \<^verbatim>\<open>editor.revealRange\<close> made
  so far. A function that throws leaves the state as it was at the throw.\<close>

record State =
  documentsHistory :: AllDocumentsHistory
  activeTextEditor :: "TextEditor option"
  revealRangeCalls :: "(Range \<times> TextEditorRevealType) list"

datatype 'a outcome = Returned 'a | Threw error 'a

fun state_of :: "'a outcome \<Rightarrow> 'a" where
  "state_of (Returned s) = s"
| "state_of (Threw e s) = s"

definition getDocumentId :: "TextDocument \<Rightarrow> string" where
  "getDocumentId doc = uri doc"

fun areSelectionsEqual_loop :: "Selection list \<Rightarrow> Selection list \<Rightarrow> nat list \<Rightarrow> error + bool" where
  "areSelectionsEqual_loop selections1 selections2 [] = Inr True"
| "areSelectionsEqual_loop selections1 selections2 (i # is) =
     (case (at selections1 i, at selections2 i) of
        (Some a, Some b) \<Rightarrow>
          if \<not> sel_isEqual a b then Inr False
          else areSelectionsEqual_loop selections1 selections2 is
      | _ \<Rightarrow> Inl TypeError)"

definition areSelectionsEqual :: "Selection list \<Rightarrow> Selection list \<Rightarrow> error + bool" where
  "areSelectionsEqual selections1 selections2 =
     (if length selections1 \<noteq> length selections2 then Inr False
      else areSelectionsEqual_loop selections1 selections2 [0..<length selections1])"

text \<open>\<^verbatim>\<open>stack[stack.length - 1]\<close> is \<^verbatim>\<open>undefined\<close> on the empty stack (index \<open>-1\<close>).\<close>

definition topOf :: "'a list \<Rightarrow> 'a option" where
  "topOf stack = (if stack = [] then None else at stack (length stack - 1))"

definition pushIntoUndoStack :: "DocumentHistory \<Rightarrow> Selection list \<Rightarrow> error + DocumentHistory" where
  "pushIntoUndoStack history sels =
     (case topOf (undoStack history) of
        None \<Rightarrow> Inr (history\<lparr>undoStack := undoStack history @ [\<lparr>selections = sels\<rparr>]\<rparr>)
      | Some lastUndoItem \<Rightarrow>
          (case areSelectionsEqual sels (selections lastUndoItem) of
             Inl e \<Rightarrow> Inl e
           | Inr True \<Rightarrow> Inr history
           | Inr False \<Rightarrow> Inr (history\<lparr>undoStack := undoStack history @ [\<lparr>selections = sels\<rparr>]\<rparr>)))"

definition pushIntoRedoStack :: "DocumentHistory \<Rightarrow> Selection list \<Rightarrow> error + DocumentHistory" where
  "pushIntoRedoStack history sels =
     (case topOf (redoStack history) of
        None \<Rightarrow> Inr (history\<lparr>redoStack := redoStack history @ [\<lparr>selections = sels\<rparr>]\<rparr>)
      | Some lastRedoItem \<Rightarrow>
          (case areSelectionsEqual sels (selections lastRedoItem) of
             Inl e \<Rightarrow> Inl e
           | Inr True \<Rightarrow> Inr history
           | Inr False \<Rightarrow> Inr (history\<lparr>redoStack := redoStack history @ [\<lparr>selections = sels\<rparr>]\<rparr>)))"

definition updateHistoryWithNewSelections ::
  "DocumentHistory \<Rightarrow> Selection list \<Rightarrow> nat \<Rightarrow> DocumentHistory" where
  "updateHistoryWithNewSelections history sels ver =
     history\<lparr>selectionsHistory :=
       \<lparr>previousOfLastSelections = lastSelections (selectionsHistory history),
        previousOfLastDocumentVersion = lastDocumentVersion (selectionsHistory history),
        lastSelections = sels,
        lastDocumentVersion = ver\<rparr>\<rparr>"

definition getInitialSelectionsHistory :: "TextEditor \<Rightarrow> SelectionsHistory" where
  "getInitialSelectionsHistory editor =
     \<lparr>previousOfLastSelections = [],
      previousOfLastDocumentVersion = version (document editor),
      lastSelections = editorSelections editor,
      lastDocumentVersion = version (document editor)\<rparr>"

definition getInitialDocumentHistory :: "int \<Rightarrow> TextEditor \<Rightarrow> DocumentHistory" where
  "getInitialDocumentHistory now editor =
     \<lparr>selectionsHistory = getInitialSelectionsHistory editor,
      undoStack = [],
      redoStack = [],
      lastSelectionsTimestamp = now,
      undoRedoCounter = 0\<rparr>"

definition initiateUndoHistory :: "int \<Rightarrow> TextEditor option \<Rightarrow> State \<Rightarrow> State" where
  "initiateUndoHistory now editor s =
     (case editor of
        None \<Rightarrow> s
      | Some ed \<Rightarrow>
          (case documentsHistory s (getDocumentId (document ed)) of
             None \<Rightarrow> s\<lparr>documentsHistory :=
                        (documentsHistory s)(getDocumentId (document ed)
                           \<mapsto> getInitialDocumentHistory now ed)\<rparr>
           | Some h \<Rightarrow> s))"

subsection \<open>Revealing the cursor\<close>

definition getRangeForActiveCursor :: "Position \<Rightarrow> Range" where
  "getRangeForActiveCursor activePosition = newRange activePosition activePosition"

text \<open>The third argument is \<^verbatim>\<open>editor.selection.active\<close>, which \<^verbatim>\<open>revealActiveCursor\<close> reads
  on every path.\<close>

definition isCursorNearlyVisibleInRange :: "Range \<Rightarrow> TextDocument \<Rightarrow> Position \<Rightarrow> bool" where
  "isCursorNearlyVisibleInRange visibleRange doc activePosition =
     (let nearlyVisibleStart =
            pos_with (range_start visibleRange)
              (nat (max (int (line (range_start visibleRange)) - int NEARLY_VISIBLE_LINES) 0));
          nearlyVisibleEnd =
            pos_with (range_end visibleRange)
              (line (range_end visibleRange) + NEARLY_VISIBLE_LINES);
          nearlyVisibleRange = validateRange doc (newRange nearlyVisibleStart nearlyVisibleEnd)
      in contains nearlyVisibleRange activePosition)"

text \<open>\<^verbatim>\<open>editor.selection\<close> is \<^verbatim>\<open>editor.selections[0]\<close>. The result lists the calls of
  \<^verbatim>\<open>editor.revealRange\<close>: none, one with the default reveal type, or one with \<open>InCenter\<close>.\<close>

definition revealActiveCursor ::
  "TextEditor \<Rightarrow> error + (Range \<times> TextEditorRevealType) list" where
  "revealActiveCursor editor =
     (case at (editorSelections editor) 0 of
        None \<Rightarrow> Inl TypeError
      | Some selection \<Rightarrow>
          if list_ex (\<lambda>range. contains range (active selection)) (visibleRanges editor)
            then Inr []
          else if list_ex (\<lambda>range. isCursorNearlyVisibleInRange range (document editor)
                             (active selection)) (visibleRanges editor)
            then Inr [(getRangeForActiveCursor (active selection), Default)]
          else Inr [(getRangeForActiveCursor (active selection), InCenter)])"

subsection \<open>The selection change listener\<close>

text \<open>Lines 122 to 126: the body of the \<^verbatim>\<open>if\<close> in \<^verbatim>\<open>handleSelectionChange\<close>.\<close>

definition commitLastSelections :: "DocumentHistory \<Rightarrow> error + DocumentHistory" where
  "commitLastSelections history =
     (case pushIntoUndoStack history (lastSelections (selectionsHistory history)) of
        Inl e \<Rightarrow> Inl e
      | Inr h1 \<Rightarrow>
          Inr ((if length (undoStack h1) > MAX_STACK_SIZE
                then h1\<lparr>undoStack := tl (undoStack h1)\<rparr> else h1)\<lparr>redoStack := []\<rparr>))"

text \<open>The first argument is the value of \<^verbatim>\<open>new Date().getTime()\<close> in the call. The left
  operand of \<^verbatim>\<open>||\<close> decides alone when it is true.\<close>

definition handleSelectionChange ::
  "int \<Rightarrow> TextEditorSelectionChangeEvent \<Rightarrow> State \<Rightarrow> State outcome" where
  "handleSelectionChange timestamp e s =
     (let editor = textEditor e;
          documentId = getDocumentId (document editor)
      in case documentsHistory s documentId of
        None \<Rightarrow> Threw Error s
      | Some history \<Rightarrow>
          if undoRedoCounter history > 0 then
            Returned (s\<lparr>documentsHistory := (documentsHistory s)(documentId \<mapsto>
              history\<lparr>undoRedoCounter := undoRedoCounter history - 1\<rparr>)\<rparr>)
          else
            (case (if timestamp - lastSelectionsTimestamp history > FOUR_SECONDS then Inr True
                   else isLastSelectionsChangeSignificant (selectionsHistory history)
                          (eventSelections e) (version (document editor))) of
               Inl err \<Rightarrow> Threw err s
             | Inr significant \<Rightarrow>
                 (case (if significant then commitLastSelections history else Inr history) of
                    Inl err \<Rightarrow> Threw err s
                  | Inr history1 \<Rightarrow>
                      Returned (s\<lparr>documentsHistory := (documentsHistory s)(documentId \<mapsto>
                        (updateHistoryWithNewSelections history1 (eventSelections e)
                           (version (document editor)))
                        \<lparr>lastSelectionsTimestamp := timestamp\<rparr>)\<rparr>))))"

subsection \<open>The commands\<close>

text \<open>\<^verbatim>\<open>stack.pop()\<close>: \<^verbatim>\<open>undefined\<close> on the empty stack, else the last element, removed.\<close>

definition pop :: "'a list \<Rightarrow> ('a \<times> 'a list) option" where
  "pop stack = (if stack = [] then None else Some (last stack, butlast stack))"

definition cursorUndo :: "int \<Rightarrow> State \<Rightarrow> State outcome" where
  "cursorUndo now s =
     (case activeTextEditor s of
        None \<Rightarrow> Returned s
      | Some editor \<Rightarrow>
          (let documentId = getDocumentId (document editor);
               s1 = (case documentsHistory s documentId of
                       None \<Rightarrow> initiateUndoHistory now (Some editor) s
                     | Some h \<Rightarrow> s)
           in case documentsHistory s1 documentId of
             None \<Rightarrow> Threw TypeError s1
           | Some history \<Rightarrow>
               (case pop (undoStack history) of
                  None \<Rightarrow> Returned s1
                | Some (undoItem, rest) \<Rightarrow>
                    (let h1 = history\<lparr>undoStack := rest\<rparr> in
                     case pushIntoRedoStack h1 (editorSelections editor) of
                       Inl err \<Rightarrow>
                         Threw err (s1\<lparr>documentsHistory := (documentsHistory s1)(documentId \<mapsto> h1)\<rparr>)
                     | Inr h2 \<Rightarrow>
                         (let editor' = editor\<lparr>editorSelections := selections undoItem\<rparr>;
                              s2 = s1\<lparr>documentsHistory := (documentsHistory s1)(documentId \<mapsto> h2),
                                      activeTextEditor := Some editor'\<rparr>
                          in case revealActiveCursor editor' of
                            Inl err \<Rightarrow> Threw err s2
                          | Inr calls \<Rightarrow>
                              Returned (s2\<lparr>revealRangeCalls := revealRangeCalls s2 @ calls,
                                documentsHistory := (documentsHistory s1)(documentId \<mapsto>
                                  h2\<lparr>undoRedoCounter := undoRedoCounter h2 + 1,
                                     selectionsHistory := getInitialSelectionsHistory editor'\<rparr>)\<rparr>))))))"

definition cursorRedo :: "State \<Rightarrow> State outcome" where
  "cursorRedo s =
     (case activeTextEditor s of
        None \<Rightarrow> Returned s
      | Some editor \<Rightarrow>
          (let documentId = getDocumentId (document editor)
           in case documentsHistory s documentId of
             None \<Rightarrow> Threw Error s
           | Some history \<Rightarrow>
               (case pop (redoStack history) of
                  None \<Rightarrow> Returned s
                | Some (redoItem, rest) \<Rightarrow>
                    (let h1 = history\<lparr>redoStack := rest\<rparr> in
                     case pushIntoUndoStack h1 (editorSelections editor) of
                       Inl err \<Rightarrow>
                         Threw err (s\<lparr>documentsHistory := (documentsHistory s)(documentId \<mapsto> h1)\<rparr>)
                     | Inr h2 \<Rightarrow>
                         (let editor' = editor\<lparr>editorSelections := selections redoItem\<rparr>;
                              s2 = s\<lparr>documentsHistory := (documentsHistory s)(documentId \<mapsto> h2),
                                     activeTextEditor := Some editor'\<rparr>
                          in case revealActiveCursor editor' of
                            Inl err \<Rightarrow> Threw err s2
                          | Inr calls \<Rightarrow>
                              Returned (s2\<lparr>revealRangeCalls := revealRangeCalls s2 @ calls,
                                documentsHistory := (documentsHistory s)(documentId \<mapsto>
                                  h2\<lparr>undoRedoCounter := undoRedoCounter h2 + 1,
                                     selectionsHistory := getInitialSelectionsHistory editor'\<rparr>)\<rparr>))))))"

subsection \<open>The states the extension can be in\<close>

text \<open>\<^verbatim>\<open>activate\<close> registers the two commands and the two listeners on an empty table. From
  then on the editor calls them in any order, with any editor, event and clock value; between
  two calls the user may switch, edit or scroll the active editor. A call that throws is
  reported by the editor and the extension goes on from the state at the throw.\<close>

inductive reachable :: "State \<Rightarrow> bool" where
  activated:
    "reachable \<lparr>documentsHistory = (\<lambda>documentId. None), activeTextEditor = ed,
                revealRangeCalls = []\<rparr>"
| editorChanged:
    "reachable s \<Longrightarrow> reachable (s\<lparr>activeTextEditor := ed\<rparr>)"
| initiated:
    "reachable s \<Longrightarrow> reachable (initiateUndoHistory now ed s)"
| selectionChanged:
    "reachable s \<Longrightarrow> reachable (state_of (handleSelectionChange now e s))"
| undone:
    "reachable s \<Longrightarrow> reachable (state_of (cursorUndo now s))"
| redone:
    "reachable s \<Longrightarrow> reachable (state_of (cursorRedo s))"

section \<open>Notions the statements use\<close>

text \<open>\<^verbatim>\<open>selection.start\<close> and \<^verbatim>\<open>selection.end\<close>: the earlier and the later of anchor and
  active.\<close>

definition sel_start :: "Selection \<Rightarrow> Position" where
  "sel_start s = range_start (sel_range s)"

definition sel_end :: "Selection \<Rightarrow> Position" where
  "sel_end s = range_end (sel_range s)"

text \<open>Two selection lists cover the same ranges: the same length and, index by index, the
  same start and the same end.\<close>

definition same_ranges :: "Selection list \<Rightarrow> Selection list \<Rightarrow> bool" where
  "same_ranges xs ys \<longleftrightarrow>
     length xs = length ys
   \<and> (\<forall>i \<in> {0..<length xs}. sel_start (xs ! i) = sel_start (ys ! i) \<and> sel_end (xs ! i) = sel_end (ys ! i))"

text \<open>The equality the specification words for the deduplication rule: the same length and,
  index by index, equal anchors and equal actives.\<close>

definition spec_structurally_equal :: "Selection list \<Rightarrow> Selection list \<Rightarrow> bool" where
  "spec_structurally_equal xs ys \<longleftrightarrow>
     length xs = length ys
   \<and> (\<forall>i \<in> {0..<length xs}. anchor (xs ! i) = anchor (ys ! i) \<and> active (xs ! i) = active (ys ! i))"

text \<open>A selection with anchor and active exchanged.\<close>

definition reversed :: "Selection \<Rightarrow> Selection" where
  "reversed s = \<lparr>anchor = active s, active = anchor s\<rparr>"

text \<open>The stack after \<^verbatim>\<open>shift()\<close> when it is longer than \<open>MAX_STACK_SIZE\<close>, as lines 123 to 125
  leave it.\<close>

definition trimmed :: "UndoItem list \<Rightarrow> UndoItem list" where
  "trimmed stack = (if length stack > MAX_STACK_SIZE then tl stack else stack)"

text \<open>The stack after a push that is skipped when the new list covers the same ranges as
  the top.\<close>

definition deduped_push :: "UndoItem list \<Rightarrow> Selection list \<Rightarrow> UndoItem list" where
  "deduped_push stack sels =
     (if stack \<noteq> [] \<and> same_ranges sels (selections (last stack)) then stack
      else stack @ [\<lparr>selections = sels\<rparr>])"

text \<open>The condition of the \<^verbatim>\<open>if\<close> in \<^verbatim>\<open>handleSelectionChange\<close>: more than four seconds since
  the last recorded change, or a change the classifier finds significant.\<close>

definition commits :: "int \<Rightarrow> TextEditorSelectionChangeEvent \<Rightarrow> DocumentHistory \<Rightarrow> bool" where
  "commits now e h \<longleftrightarrow>
     now - lastSelectionsTimestamp h > FOUR_SECONDS
   \<or> isLastSelectionsChangeSignificant (selectionsHistory h) (eventSelections e)
        (version (document (textEditor e))) = Inr True"

text \<open>The invariant of the table: in every history the two stacks together hold at most
  \<open>MAX_STACK_SIZE\<close> entries.\<close>

definition within_bound :: "AllDocumentsHistory \<Rightarrow> bool" where
  "within_bound dh \<longleftrightarrow>
     (\<forall>documentId h. dh documentId = Some h
        \<longrightarrow> length (undoStack h) + length (redoStack h) \<le> MAX_STACK_SIZE)"

text \<open>The window after \<^verbatim>\<open>updateHistoryWithNewSelections\<close>.\<close>

definition shifted :: "SelectionsHistory \<Rightarrow> Selection list \<Rightarrow> nat \<Rightarrow> SelectionsHistory" where
  "shifted w sels ver =
     \<lparr>previousOfLastSelections = lastSelections w,
      previousOfLastDocumentVersion = lastDocumentVersion w,
      lastSelections = sels,
      lastDocumentVersion = ver\<rparr>"

section \<open>Concrete editors, events and states\<close>

definition pos :: "nat \<Rightarrow> nat \<Rightarrow> Position" where
  "pos l c = \<lparr>line = l, character = c\<rparr>"

definition cursorAt :: "nat \<Rightarrow> nat \<Rightarrow> Selection" where
  "cursorAt l c = \<lparr>anchor = pos l c, active = pos l c\<rparr>"

text \<open>A document of 30 lines of 10 characters each, but for line 10, which has 3.\<close>

definition ex_document :: TextDocument where
  "ex_document =
     \<lparr>uri = ''untitled:Untitled-1'', version = 3,
      lineLengths = replicate 10 10 @ [3] @ replicate 19 10\<rparr>"

text \<open>An editor on it, showing lines 0 to 10, with one cursor.\<close>

definition ex_editor :: "Selection list \<Rightarrow> TextEditor" where
  "ex_editor sels =
     \<lparr>document = ex_document, editorSelections = sels,
      visibleRanges = [\<lparr>range_start = pos 0 0, range_end = pos 10 3\<rparr>]\<rparr>"

definition ex_event :: "Selection list \<Rightarrow> TextEditorSelectionChangeEvent" where
  "ex_event sels = \<lparr>textEditor = ex_editor sels, eventSelections = sels\<rparr>"

definition ex_history ::
  "Selection list \<Rightarrow> Selection list \<Rightarrow> UndoItem list \<Rightarrow> UndoItem list \<Rightarrow> DocumentHistory" where
  "ex_history prevSels lastSels undo redo =
     \<lparr>selectionsHistory =
        \<lparr>previousOfLastSelections = prevSels, previousOfLastDocumentVersion = 3,
         lastSelections = lastSels, lastDocumentVersion = 3\<rparr>,
      undoStack = undo, redoStack = redo,
      lastSelectionsTimestamp = 0, undoRedoCounter = 0\<rparr>"

definition ex_state :: "DocumentHistory option \<Rightarrow> Selection list \<Rightarrow> State" where
  "ex_state h sels =
     \<lparr>documentsHistory = (\<lambda>documentId. if documentId = ''untitled:Untitled-1'' then h else None),
      activeTextEditor = Some (ex_editor sels),
      revealRangeCalls = []\<rparr>"

text \<open>A selection from (0,2) to (0,5), and the same text selected backwards.\<close>

definition ex_U :: Selection where
  "ex_U = \<lparr>anchor = pos 0 2, active = pos 0 5\<rparr>"

definition ex_R :: Selection where
  "ex_R = \<lparr>anchor = pos 0 5, active = pos 0 2\<rparr>"

text \<open>The history after: initialization with \<open>ex_U\<close> selected, a selection change to \<open>ex_R\<close>,
  an undo, a redo, and the selection change that each of the two commands triggers. Its
  window is the one the redo left, its undo stack holds \<open>ex_U\<close>.\<close>

definition ex_after_redo :: DocumentHistory where
  "ex_after_redo = (ex_history [] [ex_R] [\<lparr>selections = [ex_U]\<rparr>] [])\<lparr>lastSelectionsTimestamp := 100\<rparr>"

section \<open>Properties of the editor API\<close>

lemma pos_isEqual_iff: "pos_isEqual p q \<longleftrightarrow> p = q"
  by (cases p, cases q) (simp add: pos_isEqual_def)

lemma isEmpty_iff: "isEmpty s \<longleftrightarrow> anchor s = active s"
  by (cases "anchor s"; cases "active s")
     (auto simp: isEmpty_def sel_range_def newRange_def pos_isEqual_iff isBefore_def)

lemma range_isEqual_iff: "range_isEqual r1 r2 \<longleftrightarrow> r1 = r2"
  by (cases r1, cases r2) (simp add: range_isEqual_def pos_isEqual_iff)

lemma sel_isEqual_iff:
  "sel_isEqual s t \<longleftrightarrow> sel_start s = sel_start t \<and> sel_end s = sel_end t"
  by (cases "sel_range s"; cases "sel_range t")
     (simp add: sel_isEqual_def range_isEqual_iff sel_start_def sel_end_def)

section \<open>The loops read inside their arrays\<close>

lemma upt_ex: "(\<exists>i \<in> set [0..<n]. P i) \<longleftrightarrow> (\<exists>i \<in> {0..<n}. P i)"
  by simp

lemma rules_3_4_loop_eq:
  "\<forall>i \<in> set is. i < length sels \<and> i < length lastSels \<Longrightarrow>
   rules_3_4_loop sels lastSels is
     = Inr (\<exists>i \<in> set is. (anchor (sels ! i) = active (sels ! i))
                           \<noteq> (anchor (lastSels ! i) = active (lastSels ! i)))"
  by (induction "is") (auto simp: at_def isEmpty_iff)

lemma rule_5_loop_eq:
  "\<forall>i \<in> set is. i < length sels \<and> i < length lastSels \<Longrightarrow>
   rule_5_loop sels lastSels is
     = Inr (\<exists>i \<in> set is. anchor (sels ! i) \<noteq> active (sels ! i)
                        \<and> anchor (sels ! i) \<noteq> anchor (lastSels ! i)
                        \<and> active (sels ! i) \<noteq> active (lastSels ! i))"
  by (induction "is") (auto simp: at_def isEmpty_iff pos_isEqual_iff)

lemma rule_6_loop_eq:
  "\<forall>i \<in> set is. i < length sels \<and> i < length lastSels \<and> i < length prevSels \<Longrightarrow>
   rule_6_loop sels lastSels prevSels is
     = Inr (\<exists>i \<in> set is.
         \<bar>int (line (active (lastSels ! i))) - int (line (active (prevSels ! i)))\<bar> * 5
           < \<bar>int (line (active (sels ! i))) - int (line (active (lastSels ! i)))\<bar>
       \<or> \<bar>int (line (active (lastSels ! i))) - int (line (active (prevSels ! i)))\<bar>
           > \<bar>int (line (active (sels ! i))) - int (line (active (lastSels ! i)))\<bar> * 5)"
  by (induction "is") (auto simp: at_def Let_def)

lemma classifier_decides:
  "isLastSelectionsChangeSignificant w cur curVer = Inr (spec_isSignificant w cur curVer)"
proof (cases "length cur = length (lastSelections w)
              \<and> length (lastSelections w) = length (previousOfLastSelections w)")
  case False
  then show ?thesis
    by (auto simp: isLastSelectionsChangeSignificant_def spec_isSignificant_def)
next
  case True
  define n where "n = length cur"
  define lastSels where "lastSels = lastSelections w"
  define prevSels where "prevSels = previousOfLastSelections w"
  have len: "length cur = n" "length lastSels = n" "length prevSels = n"
    using True by (simp_all add: n_def lastSels_def prevSels_def)
  have r34: "rules_3_4_loop cur lastSels [0..<n]
     = Inr (\<exists>i \<in> {0..<n}. (anchor (cur ! i) = active (cur ! i))
                     \<noteq> (anchor (lastSels ! i) = active (lastSels ! i)))"
    using rules_3_4_loop_eq [of "[0..<n]" cur lastSels] len by (simp only: upt_ex) simp
  have r5: "rule_5_loop cur lastSels [0..<n]
     = Inr (\<exists>i \<in> {0..<n}. anchor (cur ! i) \<noteq> active (cur ! i)
                 \<and> anchor (cur ! i) \<noteq> anchor (lastSels ! i)
                 \<and> active (cur ! i) \<noteq> active (lastSels ! i))"
    using rule_5_loop_eq [of "[0..<n]" cur lastSels] len by (simp only: upt_ex) simp
  have r6: "rule_6_loop cur lastSels prevSels [0..<n]
     = Inr (\<exists>i \<in> {0..<n}.
         \<bar>int (line (active (lastSels ! i))) - int (line (active (prevSels ! i)))\<bar> * 5
           < \<bar>int (line (active (cur ! i))) - int (line (active (lastSels ! i)))\<bar>
       \<or> \<bar>int (line (active (lastSels ! i))) - int (line (active (prevSels ! i)))\<bar>
           > \<bar>int (line (active (cur ! i))) - int (line (active (lastSels ! i)))\<bar> * 5)"
    using rule_6_loop_eq [of "[0..<n]" cur lastSels prevSels] len by (simp only: upt_ex) simp
  show ?thesis
    unfolding isLastSelectionsChangeSignificant_def spec_isSignificant_def
      lastSels_def [symmetric] prevSels_def [symmetric] len r34 r5 r6
    by (simp split: bool.splits)
qed

lemma areSelectionsEqual_loop_eq:
  "\<forall>i \<in> set is. i < length xs \<and> i < length ys \<Longrightarrow>
   areSelectionsEqual_loop xs ys is = Inr (\<forall>i \<in> set is. sel_isEqual (xs ! i) (ys ! i))"
  by (induction "is") (auto simp: at_def)

lemma areSelectionsEqual_eq: "areSelectionsEqual xs ys = Inr (same_ranges xs ys)"
proof (cases "length xs = length ys")
  case False
  then show ?thesis by (simp add: areSelectionsEqual_def same_ranges_def)
next
  case True
  then have "areSelectionsEqual_loop xs ys [0..<length xs]
      = Inr (\<forall>i \<in> set [0..<length xs]. sel_isEqual (xs ! i) (ys ! i))"
    by (intro areSelectionsEqual_loop_eq) simp
  with True show ?thesis
    by (auto simp: areSelectionsEqual_def same_ranges_def sel_isEqual_iff)
qed

section \<open>What the pushes and the listener compute\<close>

lemma topOf_eq: "topOf stack = (if stack = [] then None else Some (last stack))"
  by (simp add: topOf_def at_def last_conv_nth)

lemma pushIntoUndoStack_eq:
  "pushIntoUndoStack h sels = Inr (h\<lparr>undoStack := deduped_push (undoStack h) sels\<rparr>)"
  by (simp add: pushIntoUndoStack_def topOf_eq areSelectionsEqual_eq deduped_push_def)

lemma pushIntoRedoStack_eq:
  "pushIntoRedoStack h sels = Inr (h\<lparr>redoStack := deduped_push (redoStack h) sels\<rparr>)"
  by (simp add: pushIntoRedoStack_def topOf_eq areSelectionsEqual_eq deduped_push_def)

lemma commitLastSelections_eq:
  "commitLastSelections h =
     Inr (h\<lparr>undoStack := trimmed (deduped_push (undoStack h) (lastSelections (selectionsHistory h))),
            redoStack := []\<rparr>)"
  by (simp add: commitLastSelections_def pushIntoUndoStack_eq trimmed_def)

lemma commits_iff:
  "commits now e h \<longleftrightarrow>
     now - lastSelectionsTimestamp h > FOUR_SECONDS
   \<or> spec_isSignificant (selectionsHistory h) (eventSelections e) (version (document (textEditor e)))"
  by (simp add: commits_def classifier_decides)

lemma handle_missing:
  "documentsHistory s (uri (document (textEditor e))) = None \<Longrightarrow>
   handleSelectionChange now e s = Threw Error s"
  by (simp add: handleSelectionChange_def getDocumentId_def)

lemma handle_suppressed:
  "documentsHistory s (uri (document (textEditor e))) = Some h \<Longrightarrow> undoRedoCounter h > 0 \<Longrightarrow>
   handleSelectionChange now e s =
     Returned (s\<lparr>documentsHistory := (documentsHistory s)(uri (document (textEditor e)) \<mapsto>
       h\<lparr>undoRedoCounter := undoRedoCounter h - 1\<rparr>)\<rparr>)"
  by (simp add: handleSelectionChange_def getDocumentId_def)

lemma handle_unsuppressed:
  "documentsHistory s (uri (document (textEditor e))) = Some h \<Longrightarrow> undoRedoCounter h = 0 \<Longrightarrow>
   handleSelectionChange now e s =
     Returned (s\<lparr>documentsHistory := (documentsHistory s)(uri (document (textEditor e)) \<mapsto>
       (if commits now e h
        then h\<lparr>undoStack := trimmed (deduped_push (undoStack h) (lastSelections (selectionsHistory h))),
               redoStack := []\<rparr>
        else h)
       \<lparr>selectionsHistory :=
           shifted (selectionsHistory h) (eventSelections e) (version (document (textEditor e))),
        lastSelectionsTimestamp := now\<rparr>)\<rparr>)"
  by (simp add: handleSelectionChange_def getDocumentId_def commits_def classifier_decides
      commitLastSelections_eq updateHistoryWithNewSelections_def shifted_def Let_def)

section \<open>The commands when a stack is not empty\<close>

lemma cursorUndo_pops:
  assumes "activeTextEditor s = Some ed"
    and "documentsHistory s (uri (document ed)) = Some h"
    and "undoStack h \<noteq> []"
  shows "cursorUndo now s =
     (let ed' = ed\<lparr>editorSelections := selections (last (undoStack h))\<rparr>;
          h2 = h\<lparr>undoStack := butlast (undoStack h),
                 redoStack := deduped_push (redoStack h) (editorSelections ed)\<rparr>
      in case revealActiveCursor ed' of
           Inl err \<Rightarrow>
             Threw err (s\<lparr>documentsHistory := (documentsHistory s)(uri (document ed) \<mapsto> h2),
                          activeTextEditor := Some ed'\<rparr>)
         | Inr calls \<Rightarrow>
             Returned (s\<lparr>documentsHistory := (documentsHistory s)(uri (document ed) \<mapsto>
                            h2\<lparr>undoRedoCounter := undoRedoCounter h + 1,
                               selectionsHistory := getInitialSelectionsHistory ed'\<rparr>),
                         activeTextEditor := Some ed',
                         revealRangeCalls := revealRangeCalls s @ calls\<rparr>))"
  using assms
  by (simp add: cursorUndo_def getDocumentId_def pop_def pushIntoRedoStack_eq Let_def
      split: sum.splits)

lemma cursorRedo_pops:
  assumes "activeTextEditor s = Some ed"
    and "documentsHistory s (uri (document ed)) = Some h"
    and "redoStack h \<noteq> []"
  shows "cursorRedo s =
     (let ed' = ed\<lparr>editorSelections := selections (last (redoStack h))\<rparr>;
          h2 = h\<lparr>redoStack := butlast (redoStack h),
                 undoStack := deduped_push (undoStack h) (editorSelections ed)\<rparr>
      in case revealActiveCursor ed' of
           Inl err \<Rightarrow>
             Threw err (s\<lparr>documentsHistory := (documentsHistory s)(uri (document ed) \<mapsto> h2),
                          activeTextEditor := Some ed'\<rparr>)
         | Inr calls \<Rightarrow>
             Returned (s\<lparr>documentsHistory := (documentsHistory s)(uri (document ed) \<mapsto>
                            h2\<lparr>undoRedoCounter := undoRedoCounter h + 1,
                               selectionsHistory := getInitialSelectionsHistory ed'\<rparr>),
                         activeTextEditor := Some ed',
                         revealRangeCalls := revealRangeCalls s @ calls\<rparr>))"
  using assms
  by (simp add: cursorRedo_def getDocumentId_def pop_def pushIntoUndoStack_eq Let_def
      split: sum.splits)

lemma revealActiveCursor_returns:
  "sels \<noteq> [] \<Longrightarrow> \<exists>calls. revealActiveCursor (ed\<lparr>editorSelections := sels\<rparr>) = Inr calls"
  by (simp add: revealActiveCursor_def at_def)

section \<open>The stacks stay within the bound\<close>

lemma length_deduped_push: "length (deduped_push stack sels) \<le> length stack + 1"
  by (simp add: deduped_push_def)

lemma length_trimmed: "length (trimmed stack) \<le> length stack"
  by (simp add: trimmed_def)

lemma length_trimmed_push:
  "length stack \<le> MAX_STACK_SIZE \<Longrightarrow>
   length (trimmed (deduped_push stack sels)) \<le> MAX_STACK_SIZE"
  by (simp add: trimmed_def deduped_push_def)

lemma within_bound_empty: "within_bound (\<lambda>documentId. None)"
  by (simp add: within_bound_def)

lemma within_bound_upd:
  "within_bound dh \<Longrightarrow> length (undoStack h) + length (redoStack h) \<le> MAX_STACK_SIZE \<Longrightarrow>
   within_bound (dh(k \<mapsto> h))"
  by (simp add: within_bound_def)

lemma within_boundD:
  "within_bound dh \<Longrightarrow> dh k = Some h \<Longrightarrow>
   length (undoStack h) + length (redoStack h) \<le> MAX_STACK_SIZE"
  by (simp add: within_bound_def)

lemma initiate_within_bound:
  "within_bound (documentsHistory s) \<Longrightarrow>
   within_bound (documentsHistory (initiateUndoHistory now ed s))"
  by (auto simp: initiateUndoHistory_def getInitialDocumentHistory_def
      intro!: within_bound_upd split: option.splits)

lemma handle_within_bound:
  assumes "within_bound (documentsHistory s)"
  shows "within_bound (documentsHistory (state_of (handleSelectionChange now e s)))"
proof (cases "documentsHistory s (uri (document (textEditor e)))")
  case None
  then show ?thesis using assms by (simp add: handle_missing)
next
  case (Some h)
  note b = within_boundD [OF assms Some]
  show ?thesis
  proof (cases "undoRedoCounter h > 0")
    case True
    show ?thesis
      unfolding handle_suppressed [OF Some True]
      using assms b by (simp add: within_bound_upd)
  next
    case False
    then have z: "undoRedoCounter h = 0" by simp
    have "length (undoStack h) \<le> MAX_STACK_SIZE" using b by simp
    from length_trimmed_push [OF this]
    show ?thesis
      unfolding handle_unsuppressed [OF Some z]
      using assms b by (auto intro!: within_bound_upd)
  qed
qed

lemma undo_within_bound:
  assumes "within_bound (documentsHistory s)"
  shows "within_bound (documentsHistory (state_of (cursorUndo now s)))"
proof (cases "activeTextEditor s")
  case None
  then show ?thesis using assms by (simp add: cursorUndo_def)
next
  case (Some ed)
  show ?thesis
  proof (cases "documentsHistory s (uri (document ed))")
    case None
    with Some assms show ?thesis
      by (simp add: cursorUndo_def getDocumentId_def initiateUndoHistory_def pop_def
          getInitialDocumentHistory_def within_bound_upd)
  next
    case h: (Some h)
    note b = within_boundD [OF assms h]
    show ?thesis
    proof (cases "undoStack h = []")
      case True
      with Some h assms show ?thesis
        by (simp add: cursorUndo_def getDocumentId_def pop_def)
    next
      case False
      then have "length (butlast (undoStack h)) + 1 = length (undoStack h)"
        by (cases "undoStack h" rule: rev_cases) simp_all
      with b length_deduped_push [of "redoStack h" "editorSelections ed"]
      have "length (butlast (undoStack h))
              + length (deduped_push (redoStack h) (editorSelections ed)) \<le> MAX_STACK_SIZE"
        by linarith
      then show ?thesis
        unfolding cursorUndo_pops [OF Some h False]
        using assms by (auto simp: Let_def intro!: within_bound_upd split: sum.splits)
    qed
  qed
qed

lemma redo_within_bound:
  assumes "within_bound (documentsHistory s)"
  shows "within_bound (documentsHistory (state_of (cursorRedo s)))"
proof (cases "activeTextEditor s")
  case None
  then show ?thesis using assms by (simp add: cursorRedo_def)
next
  case (Some ed)
  show ?thesis
  proof (cases "documentsHistory s (uri (document ed))")
    case None
    with Some assms show ?thesis
      by (simp add: cursorRedo_def getDocumentId_def)
  next
    case h: (Some h)
    note b = within_boundD [OF assms h]
    show ?thesis
    proof (cases "redoStack h = []")
      case True
      with Some h assms show ?thesis
        by (simp add: cursorRedo_def getDocumentId_def pop_def)
    next
      case False
      then have "length (butlast (redoStack h)) + 1 = length (redoStack h)"
        by (cases "redoStack h" rule: rev_cases) simp_all
      with b length_deduped_push [of "undoStack h" "editorSelections ed"]
      have "length (deduped_push (undoStack h) (editorSelections ed))
              + length (butlast (redoStack h)) \<le> MAX_STACK_SIZE"
        by linarith
      then show ?thesis
        unfolding cursorRedo_pops [OF Some h False]
        using assms by (auto simp: Let_def intro!: within_bound_upd split: sum.splits)
    qed
  qed
qed

lemma reachable_within_bound: "reachable s \<Longrightarrow> within_bound (documentsHistory s)"
proof (induction rule: reachable.induct)
  case (activated ed)
  show ?case by (simp add: within_bound_empty)
next
  case (editorChanged s ed)
  then show ?case by simp
next
  case (initiated s now ed)
  from initiated.IH show ?case by (rule initiate_within_bound)
next
  case (selectionChanged s now e)
  from selectionChanged.IH show ?case by (rule handle_within_bound)
next
  case (undone s now)
  from undone.IH show ?case by (rule undo_within_bound)
next
  case (redone s)
  from redone.IH show ?case by (rule redo_within_bound)
qed

section \<open>Facts about reversed selections\<close>

lemma sel_range_reversed: "sel_range (reversed s) = sel_range s"
  by (cases "anchor s"; cases "active s")
     (auto simp: sel_range_def reversed_def newRange_def isBefore_def)

lemma same_ranges_reversed: "same_ranges (map reversed sels) sels"
  by (simp add: same_ranges_def sel_start_def sel_end_def sel_range_reversed)

lemma structurally_equal_same_ranges: "spec_structurally_equal xs ys \<Longrightarrow> same_ranges xs ys"
  by (simp add: spec_structurally_equal_def same_ranges_def sel_start_def sel_end_def
      sel_range_def)

section \<open>Evaluating the listener on the concrete states\<close>

lemma handle_ex:
  "undoRedoCounter h = 0 \<Longrightarrow>
   handleSelectionChange now (ex_event sels) (ex_state (Some h) sels') =
     Returned (ex_state (Some
       ((if commits now (ex_event sels) h
         then h\<lparr>undoStack := trimmed (deduped_push (undoStack h) (lastSelections (selectionsHistory h))),
                redoStack := []\<rparr>
         else h)
        \<lparr>selectionsHistory := shifted (selectionsHistory h) sels 3,
         lastSelectionsTimestamp := now\<rparr>)) sels')"
  by (subst handle_unsuppressed [where h = h])
     (simp_all add: ex_state_def ex_event_def ex_editor_def ex_document_def fun_eq_iff)

lemma commits_ex:
  "commits now (ex_event sels) h \<longleftrightarrow>
     now - lastSelectionsTimestamp h > 4000 \<or> spec_isSignificant (selectionsHistory h) sels 3"
  by (simp add: commits_iff FOUR_SECONDS_def ex_event_def ex_editor_def ex_document_def)

lemma ex_initiate:
  "initiateUndoHistory 0 (Some (ex_editor sels)) (ex_state None sels')
     = ex_state (Some (ex_history [] sels [] [])) sels'"
  by (simp add: initiateUndoHistory_def ex_state_def ex_editor_def ex_document_def
      getDocumentId_def getInitialDocumentHistory_def getInitialSelectionsHistory_def
      ex_history_def fun_eq_iff)

lemma ex_activated: "reachable (ex_state None sels)"
  using reachable.activated [of "Some (ex_editor sels)"] by (simp add: ex_state_def)

lemma ex_editorChanged:
  "(ex_state h sels)\<lparr>activeTextEditor := Some (ex_editor sels')\<rparr> = ex_state h sels'"
  by (simp add: ex_state_def)

lemma ex_handle_first:
  "handleSelectionChange 5000 (ex_event [cursorAt 0 4])
      (ex_state (Some (ex_history [] [cursorAt 0 2] [] [])) sels)
   = Returned (ex_state (Some ((ex_history [cursorAt 0 2] [cursorAt 0 4]
        [\<lparr>selections = [cursorAt 0 2]\<rparr>] [])\<lparr>lastSelectionsTimestamp := 5000\<rparr>)) sels)"
  by (subst handle_ex)
     (simp_all add: commits_ex ex_history_def deduped_push_def trimmed_def shifted_def
        MAX_STACK_SIZE_def)

lemma ex_reveal_visible: "revealActiveCursor (ex_editor [cursorAt 0 2]) = Inr []"
  by code_simp

lemma ex_undo:
  "cursorUndo 6000 (ex_state (Some ((ex_history [cursorAt 0 2] [cursorAt 0 4]
        [\<lparr>selections = [cursorAt 0 2]\<rparr>] [])\<lparr>lastSelectionsTimestamp := 5000\<rparr>)) [cursorAt 0 4])
   = Returned (ex_state (Some ((ex_history [] [cursorAt 0 2] [] [\<lparr>selections = [cursorAt 0 4]\<rparr>])
        \<lparr>lastSelectionsTimestamp := 5000, undoRedoCounter := 1\<rparr>)) [cursorAt 0 2])"
proof -
  let ?h = "(ex_history [cursorAt 0 2] [cursorAt 0 4]
        [\<lparr>selections = [cursorAt 0 2]\<rparr>] [])\<lparr>lastSelectionsTimestamp := 5000\<rparr>"
  let ?s = "ex_state (Some ?h) [cursorAt 0 4]"
  have a: "activeTextEditor ?s = Some (ex_editor [cursorAt 0 4])"
    by (simp add: ex_state_def)
  have b: "documentsHistory ?s (uri (document (ex_editor [cursorAt 0 4]))) = Some ?h"
    by (simp add: ex_state_def ex_editor_def ex_document_def)
  have c: "undoStack ?h \<noteq> []" by (simp add: ex_history_def)
  have d: "(ex_editor [cursorAt 0 4])\<lparr>editorSelections := [cursorAt 0 2]\<rparr> = ex_editor [cursorAt 0 2]"
    by (simp add: ex_editor_def)
  show ?thesis
    unfolding cursorUndo_pops [OF a b c]
    by (simp add: ex_history_def d ex_reveal_visible deduped_push_def
          getInitialSelectionsHistory_def)
       (simp add: ex_state_def ex_editor_def ex_document_def fun_eq_iff)
qed


lemma ex_reveal_visible': "revealActiveCursor (ex_editor [cursorAt 0 4]) = Inr []"
  by code_simp

lemma ex_redo:
  "cursorRedo (ex_state (Some ((ex_history [] [cursorAt 0 2] [] [\<lparr>selections = [cursorAt 0 4]\<rparr>])
        \<lparr>lastSelectionsTimestamp := 5000, undoRedoCounter := 1\<rparr>)) [cursorAt 0 2])
   = Returned (ex_state (Some ((ex_history [] [cursorAt 0 4] [\<lparr>selections = [cursorAt 0 2]\<rparr>] [])
        \<lparr>lastSelectionsTimestamp := 5000, undoRedoCounter := 2\<rparr>)) [cursorAt 0 4])"
proof -
  let ?h = "(ex_history [] [cursorAt 0 2] [] [\<lparr>selections = [cursorAt 0 4]\<rparr>])
        \<lparr>lastSelectionsTimestamp := 5000, undoRedoCounter := 1\<rparr>"
  let ?s = "ex_state (Some ?h) [cursorAt 0 2]"
  have a: "activeTextEditor ?s = Some (ex_editor [cursorAt 0 2])"
    by (simp add: ex_state_def)
  have b: "documentsHistory ?s (uri (document (ex_editor [cursorAt 0 2]))) = Some ?h"
    by (simp add: ex_state_def ex_editor_def ex_document_def)
  have c: "redoStack ?h \<noteq> []" by (simp add: ex_history_def)
  have d: "(ex_editor [cursorAt 0 2])\<lparr>editorSelections := [cursorAt 0 4]\<rparr> = ex_editor [cursorAt 0 4]"
    by (simp add: ex_editor_def)
  show ?thesis
    unfolding cursorRedo_pops [OF a b c]
    by (simp add: ex_history_def d ex_reveal_visible' deduped_push_def
          getInitialSelectionsHistory_def)
       (simp add: ex_state_def ex_editor_def ex_document_def fun_eq_iff)
qed

lemma ex_reachable_after_undo:
  "reachable (ex_state (Some ((ex_history [] [cursorAt 0 2] [] [\<lparr>selections = [cursorAt 0 4]\<rparr>])
        \<lparr>lastSelectionsTimestamp := 5000, undoRedoCounter := 1\<rparr>)) [cursorAt 0 2])"
proof -
  have "reachable (ex_state (Some (ex_history [] [cursorAt 0 2] [] [])) [cursorAt 0 2])"
    using reachable.initiated [OF ex_activated, of 0 "Some (ex_editor [cursorAt 0 2])" "[cursorAt 0 2]"]
    by (simp add: ex_initiate)
  from reachable.selectionChanged [OF this, of 5000 "ex_event [cursorAt 0 4]"]
  have "reachable (ex_state (Some ((ex_history [cursorAt 0 2] [cursorAt 0 4]
        [\<lparr>selections = [cursorAt 0 2]\<rparr>] [])\<lparr>lastSelectionsTimestamp := 5000\<rparr>)) [cursorAt 0 2])"
    by (simp add: ex_handle_first)
  from reachable.editorChanged [OF this, of "Some (ex_editor [cursorAt 0 4])"]
  have "reachable (ex_state (Some ((ex_history [cursorAt 0 2] [cursorAt 0 4]
        [\<lparr>selections = [cursorAt 0 2]\<rparr>] [])\<lparr>lastSelectionsTimestamp := 5000\<rparr>)) [cursorAt 0 4])"
    by (simp add: ex_editorChanged)
  from reachable.undone [OF this, of 6000]
  show ?thesis by (simp add: ex_undo)
qed

section \<open>A window without previous selections\<close>

lemma same_ranges_refl: "same_ranges xs xs"
  by (simp add: same_ranges_def)


section \<open>A state reached through an undo and a redo\<close>

lemma ex_id: "uri (document (ex_editor sels)) = ''untitled:Untitled-1''"
  by (simp add: ex_editor_def ex_document_def)

lemma ex_state_lookup:
  "documentsHistory (ex_state h sels) ''untitled:Untitled-1'' = h"
  by (simp add: ex_state_def)

lemma ex_state_editor: "activeTextEditor (ex_state h sels) = Some (ex_editor sels)"
  by (simp add: ex_state_def)

lemma ex_state_upd:
  "(ex_state h sels)\<lparr>documentsHistory :=
       (documentsHistory (ex_state h sels))(''untitled:Untitled-1'' \<mapsto> h')\<rparr>
   = ex_state (Some h') sels"
  by (simp add: ex_state_def fun_eq_iff)

lemma ex_handle_suppressed:
  "undoRedoCounter h > 0 \<Longrightarrow>
   handleSelectionChange now (ex_event sels) (ex_state (Some h) sels')
     = Returned (ex_state (Some (h\<lparr>undoRedoCounter := undoRedoCounter h - 1\<rparr>)) sels')"
  by (subst handle_suppressed [where h = h])
     (simp_all add: ex_event_def ex_id ex_state_lookup ex_state_upd)

lemma ex_not_same_ranges_cursors:
  "l \<noteq> l' \<or> c \<noteq> c' \<Longrightarrow> \<not> same_ranges [cursorAt l c] [cursorAt l' c']"
  by (auto simp: same_ranges_def sel_start_def sel_end_def sel_range_def newRange_def
      cursorAt_def pos_def)

lemma ex_U_R_same_ranges: "same_ranges [ex_R] [ex_U]"
  by (simp add: same_ranges_def sel_start_def sel_end_def sel_range_def newRange_def
      isBefore_def ex_U_def ex_R_def pos_def)

lemma ex_U_R_not_structurally_equal: "\<not> spec_structurally_equal [ex_R] [ex_U]"
  by (simp add: spec_structurally_equal_def ex_U_def ex_R_def pos_def)

lemma ex_reveal_U: "revealActiveCursor (ex_editor [ex_U]) = Inr []"
  by code_simp

lemma ex_reveal_R: "revealActiveCursor (ex_editor [ex_R]) = Inr []"
  by code_simp

lemma ex_undo_gen:
  assumes "revealActiveCursor (ex_editor sels') = Inr []"
  shows "cursorUndo now (ex_state (Some ((ex_history p l (u @ [\<lparr>selections = sels'\<rparr>]) r)
            \<lparr>lastSelectionsTimestamp := t\<rparr>)) sels)
   = Returned (ex_state (Some ((ex_history [] sels' u (deduped_push r sels))
        \<lparr>lastSelectionsTimestamp := t, undoRedoCounter := 1\<rparr>)) sels')"
proof -
  let ?h = "(ex_history p l (u @ [\<lparr>selections = sels'\<rparr>]) r)\<lparr>lastSelectionsTimestamp := t\<rparr>"
  let ?s = "ex_state (Some ?h) sels"
  have a: "activeTextEditor ?s = Some (ex_editor sels)" by (rule ex_state_editor)
  have b: "documentsHistory ?s (uri (document (ex_editor sels))) = Some ?h"
    by (simp add: ex_id ex_state_lookup)
  have c: "undoStack ?h \<noteq> []" by (simp add: ex_history_def)
  have d: "(ex_editor sels)\<lparr>editorSelections := sels'\<rparr> = ex_editor sels'"
    by (simp add: ex_editor_def)
  show ?thesis
    unfolding cursorUndo_pops [OF a b c]
    by (simp add: ex_history_def d assms getInitialSelectionsHistory_def)
       (simp add: ex_state_def ex_editor_def ex_document_def fun_eq_iff)
qed

lemma ex_redo_gen:
  assumes "revealActiveCursor (ex_editor sels') = Inr []"
  shows "cursorRedo (ex_state (Some ((ex_history p l u (r @ [\<lparr>selections = sels'\<rparr>]))
            \<lparr>lastSelectionsTimestamp := t\<rparr>)) sels)
   = Returned (ex_state (Some ((ex_history [] sels' (deduped_push u sels) r)
        \<lparr>lastSelectionsTimestamp := t, undoRedoCounter := 1\<rparr>)) sels')"
proof -
  let ?h = "(ex_history p l u (r @ [\<lparr>selections = sels'\<rparr>]))\<lparr>lastSelectionsTimestamp := t\<rparr>"
  let ?s = "ex_state (Some ?h) sels"
  have a: "activeTextEditor ?s = Some (ex_editor sels)" by (rule ex_state_editor)
  have b: "documentsHistory ?s (uri (document (ex_editor sels))) = Some ?h"
    by (simp add: ex_id ex_state_lookup)
  have c: "redoStack ?h \<noteq> []" by (simp add: ex_history_def)
  have d: "(ex_editor sels)\<lparr>editorSelections := sels'\<rparr> = ex_editor sels'"
    by (simp add: ex_editor_def)
  show ?thesis
    unfolding cursorRedo_pops [OF a b c]
    by (simp add: ex_history_def d assms getInitialSelectionsHistory_def)
       (simp add: ex_state_def ex_editor_def ex_document_def fun_eq_iff)
qed


lemma ex_reachable_after_redo: "reachable (ex_state (Some ex_after_redo) [ex_R])"
proof -
  let ?h1 = "ex_history [] [ex_U] [] []"
  let ?h2 = "(ex_history [ex_U] [ex_R] [\<lparr>selections = [ex_U]\<rparr>] [])\<lparr>lastSelectionsTimestamp := 100\<rparr>"
  let ?h4 = "(ex_history [] [ex_U] [] [\<lparr>selections = [ex_R]\<rparr>])
               \<lparr>lastSelectionsTimestamp := 100, undoRedoCounter := 1\<rparr>"
  let ?h5 = "(ex_history [] [ex_U] [] ([] @ [\<lparr>selections = [ex_R]\<rparr>]))\<lparr>lastSelectionsTimestamp := 100\<rparr>"
  let ?h6 = "(ex_history [] [ex_R] [\<lparr>selections = [ex_U]\<rparr>] [])
               \<lparr>lastSelectionsTimestamp := 100, undoRedoCounter := 1\<rparr>"
  have "reachable (ex_state (Some ?h1) [ex_U])"
    using reachable.initiated [OF ex_activated, of 0 "Some (ex_editor [ex_U])" "[ex_U]"]
    by (simp add: ex_initiate)
  from reachable.selectionChanged [OF this, of 100 "ex_event [ex_R]"]
  have "reachable (ex_state (Some ?h2) [ex_U])"
    by (subst (asm) handle_ex)
       (simp_all add: commits_ex spec_isSignificant_def ex_history_def deduped_push_def
          trimmed_def shifted_def MAX_STACK_SIZE_def)
  from reachable.editorChanged [OF this, of "Some (ex_editor [ex_R])"]
  have "reachable (ex_state (Some ?h2) [ex_R])"
    by (simp add: ex_editorChanged)
  then have "reachable (ex_state (Some ((ex_history [ex_U] [ex_R] ([] @ [\<lparr>selections = [ex_U]\<rparr>]) [])
                \<lparr>lastSelectionsTimestamp := 100\<rparr>)) [ex_R])"
    by simp
  from reachable.undone [OF this, of 200]
  have "reachable (ex_state (Some ?h4) [ex_U])"
    by (subst (asm) ex_undo_gen [OF ex_reveal_U]) (simp_all add: deduped_push_def)
  from reachable.selectionChanged [OF this, of 201 "ex_event [ex_U]"]
  have "reachable (ex_state (Some ?h5) [ex_U])"
    by (subst (asm) ex_handle_suppressed) (simp_all add: ex_history_def)
  from reachable.redone [OF this]
  have "reachable (ex_state (Some ?h6) [ex_R])"
    by (subst (asm) ex_redo_gen [OF ex_reveal_R]) (simp_all add: deduped_push_def)
  from reachable.selectionChanged [OF this, of 202 "ex_event [ex_R]"]
  show ?thesis
    by (subst (asm) ex_handle_suppressed) (simp_all add: ex_history_def ex_after_redo_def)
qed

section \<open>The claims of the specification\<close>

subsection \<open>C1: the classifier\<close>

text \<open>
  C1. \<^verbatim>\<open>isLastSelectionsChangeSignificant\<close> never throws and returns true exactly when one
  of the rules of the specification holds: the cursor count differs between the candidate
  and the last selections; it differs between the last and the previous ones; at some index
  one of candidate and last is empty and the other is not; at some index the candidate is
  not empty and both its anchor and its active differ from those of the last; at some index
  the lines moved before, times five, are fewer than the lines moved now, or more than five
  times the lines moved now; the version did not change before and changes now; the
  version changed before and does not change now. Otherwise it returns false.
\<close>

theorem classifier_returns_true_iff_a_rule_holds:
  "isLastSelectionsChangeSignificant w cur curVer = Inr (spec_isSignificant w cur curVer)"
  by (rule classifier_decides)

text \<open>Two rows of the rule table of the specification: lines 0, 1, 20 are significant,
  lines 0, 5, 6 are not.\<close>

theorem classifier_returns_true_iff_a_rule_holds_witness:
  "isLastSelectionsChangeSignificant
     (selectionsHistory (ex_history [cursorAt 0 0] [cursorAt 1 0] [] [])) [cursorAt 20 0] 3
     = Inr True
   \<and> isLastSelectionsChangeSignificant
     (selectionsHistory (ex_history [cursorAt 0 0] [cursorAt 5 0] [] [])) [cursorAt 6 0] 3
     = Inr False"
  using classifier_returns_true_iff_a_rule_holds
          [of "selectionsHistory (ex_history [cursorAt 0 0] [cursorAt 1 0] [] [])" "[cursorAt 20 0]" 3]
        classifier_returns_true_iff_a_rule_holds
          [of "selectionsHistory (ex_history [cursorAt 0 0] [cursorAt 5 0] [] [])" "[cursorAt 6 0]" 3]
  by (simp add: spec_isSignificant_def ex_history_def cursorAt_def pos_def)

subsection \<open>C2: an unsuppressed event\<close>

text \<open>
  C2, as claimed: a selection change on a document with a history whose counter is zero
  pushes the last selections of the window on the undo stack, subject to the deduplication
  rule of the specification (the push is skipped when the top has the same length and,
  index by index, equal anchors and equal actives), and empties the redo stack, exactly when
  more than 4000 ms have passed or the classifier returns true. On the code the push fails
  this: it compares ranges (C4). The state below is reached by an initialization with the
  selection from (0,2) to (0,5), a change to the same text selected backwards, an undo and a
  redo, each followed by the change it triggers. Its window has the backward selection as
  last selections, its undo stack the forward one on top: they differ in anchor and
  active. The event at 5000 meets the condition, and the undo stack is left as it was.
\<close>

theorem reversed_last_selections_are_not_committed:
  "reachable (ex_state (Some ex_after_redo) [ex_R])
   \<and> undoRedoCounter ex_after_redo = 0
   \<and> lastSelections (selectionsHistory ex_after_redo) = [ex_R]
   \<and> undoStack ex_after_redo = [\<lparr>selections = [ex_U]\<rparr>]
   \<and> \<not> spec_structurally_equal [ex_R] [ex_U]
   \<and> handleSelectionChange 5000 (ex_event [cursorAt 3 0]) (ex_state (Some ex_after_redo) [ex_R])
     = Returned (ex_state
         (Some ((ex_history [ex_R] [cursorAt 3 0] [\<lparr>selections = [ex_U]\<rparr>] [])
                  \<lparr>lastSelectionsTimestamp := 5000\<rparr>)) [ex_R])"
proof (intro conjI)
  show "reachable (ex_state (Some ex_after_redo) [ex_R])"
    by (rule ex_reachable_after_redo)
  show "\<not> spec_structurally_equal [ex_R] [ex_U]"
    by (rule ex_U_R_not_structurally_equal)
  show "handleSelectionChange 5000 (ex_event [cursorAt 3 0]) (ex_state (Some ex_after_redo) [ex_R])
     = Returned (ex_state
         (Some ((ex_history [ex_R] [cursorAt 3 0] [\<lparr>selections = [ex_U]\<rparr>] [])
                  \<lparr>lastSelectionsTimestamp := 5000\<rparr>)) [ex_R])"
    by (subst handle_ex)
       (simp_all add: commits_ex ex_after_redo_def ex_history_def deduped_push_def trimmed_def
          shifted_def MAX_STACK_SIZE_def ex_U_R_same_ranges)
qed (simp_all add: ex_after_redo_def ex_history_def)

text \<open>
  C2, as the code has it: a selection change on a document with a history whose counter is
  zero returns normally. If more than 4000 ms have passed since the last recorded change or
  the classifier returns true, the last selections of the window are appended to the undo
  stack unless the stack is not empty and its top covers the same ranges (the same length
  and, index by index, the same start and the same end); the first entry is then removed if
  the stack holds more than 999; and the redo stack is emptied. Otherwise both stacks stay
  as they are. In both cases the window moves on (the old last selections and version become
  the previous ones, the selections and the document version of the event the last ones),
  the timestamp becomes that of the call and the counter stays zero.
\<close>

theorem unsuppressed_event_commits_deduplicating_by_ranges:
  assumes "documentsHistory s (uri (document (textEditor e))) = Some h"
    and "undoRedoCounter h = 0"
  shows "\<exists>h'. handleSelectionChange now e s =
            Returned (s\<lparr>documentsHistory :=
              (documentsHistory s)(uri (document (textEditor e)) \<mapsto> h')\<rparr>)
     \<and> (if now - lastSelectionsTimestamp h > 4000
           \<or> isLastSelectionsChangeSignificant (selectionsHistory h) (eventSelections e)
                (version (document (textEditor e))) = Inr True
        then undoStack h' =
               (let pushed =
                  (if undoStack h \<noteq> []
                      \<and> same_ranges (lastSelections (selectionsHistory h))
                            (selections (last (undoStack h)))
                   then undoStack h
                   else undoStack h @ [\<lparr>selections = lastSelections (selectionsHistory h)\<rparr>])
                in if length pushed > 999 then tl pushed else pushed)
             \<and> redoStack h' = []
        else undoStack h' = undoStack h \<and> redoStack h' = redoStack h)
     \<and> selectionsHistory h' =
          \<lparr>previousOfLastSelections = lastSelections (selectionsHistory h),
           previousOfLastDocumentVersion = lastDocumentVersion (selectionsHistory h),
           lastSelections = eventSelections e,
           lastDocumentVersion = version (document (textEditor e))\<rparr>
     \<and> lastSelectionsTimestamp h' = now
     \<and> undoRedoCounter h' = 0"
proof -
  have c: "commits now e h \<longleftrightarrow>
      now - lastSelectionsTimestamp h > 4000
    \<or> isLastSelectionsChangeSignificant (selectionsHistory h) (eventSelections e)
         (version (document (textEditor e))) = Inr True"
    by (simp add: commits_def FOUR_SECONDS_def)
  show ?thesis
    unfolding handle_unsuppressed [OF assms] c [symmetric]
    by (rule exI, rule conjI, rule refl)
       (simp add: assms deduped_push_def trimmed_def MAX_STACK_SIZE_def shifted_def Let_def)
qed

text \<open>Three events within four seconds: one the classifier finds significant, on a stack
  whose top differs from the last selections (pushed, redo emptied); one it does not find
  significant (both stacks unchanged); one it finds significant, on a stack whose top is the
  last selections (push skipped, redo emptied).\<close>

theorem unsuppressed_event_commits_deduplicating_by_ranges_witness:
  "handleSelectionChange 100 (ex_event [cursorAt 40 0])
     (ex_state (Some (ex_history [cursorAt 2 0] [cursorAt 3 0]
        [\<lparr>selections = [cursorAt 2 0]\<rparr>] [\<lparr>selections = [cursorAt 7 7]\<rparr>])) [cursorAt 40 0])
   = Returned (ex_state (Some ((ex_history [cursorAt 3 0] [cursorAt 40 0]
        [\<lparr>selections = [cursorAt 2 0]\<rparr>, \<lparr>selections = [cursorAt 3 0]\<rparr>] [])
        \<lparr>lastSelectionsTimestamp := 100\<rparr>)) [cursorAt 40 0])
   \<and> handleSelectionChange 100 (ex_event [cursorAt 4 0])
     (ex_state (Some (ex_history [cursorAt 2 0] [cursorAt 3 0]
        [\<lparr>selections = [cursorAt 2 0]\<rparr>] [\<lparr>selections = [cursorAt 7 7]\<rparr>])) [cursorAt 4 0])
   = Returned (ex_state (Some ((ex_history [cursorAt 3 0] [cursorAt 4 0]
        [\<lparr>selections = [cursorAt 2 0]\<rparr>] [\<lparr>selections = [cursorAt 7 7]\<rparr>])
        \<lparr>lastSelectionsTimestamp := 100\<rparr>)) [cursorAt 4 0])
   \<and> handleSelectionChange 100 (ex_event [cursorAt 40 0])
     (ex_state (Some (ex_history [cursorAt 2 0] [cursorAt 3 0]
        [\<lparr>selections = [cursorAt 3 0]\<rparr>] [\<lparr>selections = [cursorAt 7 7]\<rparr>])) [cursorAt 40 0])
   = Returned (ex_state (Some ((ex_history [cursorAt 3 0] [cursorAt 40 0]
        [\<lparr>selections = [cursorAt 3 0]\<rparr>] [])
        \<lparr>lastSelectionsTimestamp := 100\<rparr>)) [cursorAt 40 0])"
proof -
  have step: "\<exists>h'. handleSelectionChange now (ex_event sels) (ex_state (Some h) sels')
                 = Returned (ex_state (Some h') sels')
        \<and> (if now - lastSelectionsTimestamp h > 4000
              \<or> isLastSelectionsChangeSignificant (selectionsHistory h) sels 3 = Inr True
            then undoStack h' =
               (let pushed =
                  (if undoStack h \<noteq> []
                      \<and> same_ranges (lastSelections (selectionsHistory h))
                            (selections (last (undoStack h)))
                   then undoStack h
                   else undoStack h @ [\<lparr>selections = lastSelections (selectionsHistory h)\<rparr>])
                in if length pushed > 999 then tl pushed else pushed)
                 \<and> redoStack h' = []
            else undoStack h' = undoStack h \<and> redoStack h' = redoStack h)
        \<and> selectionsHistory h' =
          \<lparr>previousOfLastSelections = lastSelections (selectionsHistory h),
           previousOfLastDocumentVersion = lastDocumentVersion (selectionsHistory h),
           lastSelections = sels,
           lastDocumentVersion = 3\<rparr>
        \<and> lastSelectionsTimestamp h' = now
        \<and> undoRedoCounter h' = 0"
    if z: "undoRedoCounter h = 0" for h sels sels' now
  proof -
    have a: "documentsHistory (ex_state (Some h) sels')
               (uri (document (textEditor (ex_event sels)))) = Some h"
      by (simp add: ex_event_def ex_id ex_state_lookup)
    have v: "version (document (textEditor (ex_event sels))) = 3"
      "eventSelections (ex_event sels) = sels"
      "uri (document (textEditor (ex_event sels))) = ''untitled:Untitled-1''"
      by (simp_all add: ex_event_def ex_editor_def ex_document_def)
    show ?thesis
      using unsuppressed_event_commits_deduplicating_by_ranges [OF a z, of now]
      unfolding v ex_state_upd .
  qed
  have eqI: "h' = hx"
    if "selectionsHistory h' = selectionsHistory hx" "undoStack h' = undoStack hx"
      "redoStack h' = redoStack hx" "lastSelectionsTimestamp h' = lastSelectionsTimestamp hx"
      "undoRedoCounter h' = undoRedoCounter hx" for h' hx :: DocumentHistory
    using that by (cases h'; cases hx) simp
  let ?h = "ex_history [cursorAt 2 0] [cursorAt 3 0]
        [\<lparr>selections = [cursorAt 2 0]\<rparr>] [\<lparr>selections = [cursorAt 7 7]\<rparr>]"
  let ?k = "ex_history [cursorAt 2 0] [cursorAt 3 0]
        [\<lparr>selections = [cursorAt 3 0]\<rparr>] [\<lparr>selections = [cursorAt 7 7]\<rparr>]"
  have z: "undoRedoCounter ?h = 0" "undoRedoCounter ?k = 0"
    by (simp_all add: ex_history_def)
  have sig: "isLastSelectionsChangeSignificant (selectionsHistory ?h) [cursorAt 40 0] 3 = Inr True"
    "isLastSelectionsChangeSignificant (selectionsHistory ?k) [cursorAt 40 0] 3 = Inr True"
    "isLastSelectionsChangeSignificant (selectionsHistory ?h) [cursorAt 4 0] 3 = Inr False"
    by (simp_all add: classifier_decides spec_isSignificant_def ex_history_def cursorAt_def
        pos_def)
  have t: "\<not> (100::int) - lastSelectionsTimestamp ?h > 4000"
    "\<not> (100::int) - lastSelectionsTimestamp ?k > 4000"
    by (simp_all add: ex_history_def)
  have ne: "\<not> same_ranges [cursorAt 3 0] [cursorAt 2 0]"
    by (rule ex_not_same_ranges_cursors) simp
  have eq: "same_ranges [cursorAt 3 0] [cursorAt 3 0]"
    by (rule same_ranges_refl)
  from step [OF z(1), of 100 "[cursorAt 40 0]" "[cursorAt 40 0]"] sig(1)
  obtain h1 where r1: "handleSelectionChange 100 (ex_event [cursorAt 40 0])
        (ex_state (Some ?h) [cursorAt 40 0]) = Returned (ex_state (Some h1) [cursorAt 40 0])"
    and p1: "undoStack h1 = [\<lparr>selections = [cursorAt 2 0]\<rparr>, \<lparr>selections = [cursorAt 3 0]\<rparr>]"
      "redoStack h1 = []"
      "selectionsHistory h1 = selectionsHistory (ex_history [cursorAt 3 0] [cursorAt 40 0] [] [])"
      "lastSelectionsTimestamp h1 = 100" "undoRedoCounter h1 = 0"
    by (auto simp: ex_history_def ne)
  have "h1 = (ex_history [cursorAt 3 0] [cursorAt 40 0]
        [\<lparr>selections = [cursorAt 2 0]\<rparr>, \<lparr>selections = [cursorAt 3 0]\<rparr>] [])
        \<lparr>lastSelectionsTimestamp := 100\<rparr>"
    by (rule eqI) (simp_all add: p1 ex_history_def)
  with r1 have 1: "handleSelectionChange 100 (ex_event [cursorAt 40 0])
        (ex_state (Some ?h) [cursorAt 40 0])
      = Returned (ex_state (Some ((ex_history [cursorAt 3 0] [cursorAt 40 0]
        [\<lparr>selections = [cursorAt 2 0]\<rparr>, \<lparr>selections = [cursorAt 3 0]\<rparr>] [])
        \<lparr>lastSelectionsTimestamp := 100\<rparr>)) [cursorAt 40 0])"
    by simp
  from step [OF z(1), of 100 "[cursorAt 4 0]" "[cursorAt 4 0]"] sig(3) t(1)
  obtain h2 where r2: "handleSelectionChange 100 (ex_event [cursorAt 4 0])
        (ex_state (Some ?h) [cursorAt 4 0]) = Returned (ex_state (Some h2) [cursorAt 4 0])"
    and p2: "undoStack h2 = [\<lparr>selections = [cursorAt 2 0]\<rparr>]"
      "redoStack h2 = [\<lparr>selections = [cursorAt 7 7]\<rparr>]"
      "selectionsHistory h2 = selectionsHistory (ex_history [cursorAt 3 0] [cursorAt 4 0] [] [])"
      "lastSelectionsTimestamp h2 = 100" "undoRedoCounter h2 = 0"
    by (auto simp: ex_history_def)
  have "h2 = (ex_history [cursorAt 3 0] [cursorAt 4 0]
        [\<lparr>selections = [cursorAt 2 0]\<rparr>] [\<lparr>selections = [cursorAt 7 7]\<rparr>])
        \<lparr>lastSelectionsTimestamp := 100\<rparr>"
    by (rule eqI) (simp_all add: p2 ex_history_def)
  with r2 have 2: "handleSelectionChange 100 (ex_event [cursorAt 4 0])
        (ex_state (Some ?h) [cursorAt 4 0])
      = Returned (ex_state (Some ((ex_history [cursorAt 3 0] [cursorAt 4 0]
        [\<lparr>selections = [cursorAt 2 0]\<rparr>] [\<lparr>selections = [cursorAt 7 7]\<rparr>])
        \<lparr>lastSelectionsTimestamp := 100\<rparr>)) [cursorAt 4 0])"
    by simp
  from step [OF z(2), of 100 "[cursorAt 40 0]" "[cursorAt 40 0]"] sig(2)
  obtain h3 where r3: "handleSelectionChange 100 (ex_event [cursorAt 40 0])
        (ex_state (Some ?k) [cursorAt 40 0]) = Returned (ex_state (Some h3) [cursorAt 40 0])"
    and p3: "undoStack h3 = [\<lparr>selections = [cursorAt 3 0]\<rparr>]"
      "redoStack h3 = []"
      "selectionsHistory h3 = selectionsHistory (ex_history [cursorAt 3 0] [cursorAt 40 0] [] [])"
      "lastSelectionsTimestamp h3 = 100" "undoRedoCounter h3 = 0"
    by (auto simp: ex_history_def eq)
  have "h3 = (ex_history [cursorAt 3 0] [cursorAt 40 0]
        [\<lparr>selections = [cursorAt 3 0]\<rparr>] [])\<lparr>lastSelectionsTimestamp := 100\<rparr>"
    by (rule eqI) (simp_all add: p3 ex_history_def)
  with r3 have 3: "handleSelectionChange 100 (ex_event [cursorAt 40 0])
        (ex_state (Some ?k) [cursorAt 40 0])
      = Returned (ex_state (Some ((ex_history [cursorAt 3 0] [cursorAt 40 0]
        [\<lparr>selections = [cursorAt 3 0]\<rparr>] [])\<lparr>lastSelectionsTimestamp := 100\<rparr>)) [cursorAt 40 0])"
    by simp
  show ?thesis
    by (intro conjI) (rule 1, rule 2, rule 3)
qed

subsection \<open>C3: the bound on the undo stack\<close>

text \<open>
  C3. In every state the extension can reach, by any sequence of selection changes, undos,
  redos and history initializations, the undo stack of every document holds at most 999
  entries; this includes the state a redo leaves, which pushes without trimming. When
  the listener commits on a full stack and the push is not skipped, the first, oldest
  entry is removed and the new one is on top.
\<close>

theorem undo_stack_never_exceeds_999:
  "(reachable s \<and> documentsHistory s documentId = Some h \<longrightarrow> length (undoStack h) \<le> 999)
   \<and> (reachable s \<and> documentsHistory (state_of (cursorRedo s)) documentId = Some h'
        \<longrightarrow> length (undoStack h') \<le> 999)
   \<and> (documentsHistory s (uri (document (textEditor e))) = Some h \<and> undoRedoCounter h = 0
        \<and> commits now e h \<and> length (undoStack h) = 999
        \<and> \<not> same_ranges (lastSelections (selectionsHistory h)) (selections (last (undoStack h)))
        \<longrightarrow> (\<exists>h''. handleSelectionChange now e s =
                Returned (s\<lparr>documentsHistory :=
                  (documentsHistory s)(uri (document (textEditor e)) \<mapsto> h'')\<rparr>)
              \<and> undoStack h'' =
                  tl (undoStack h) @ [\<lparr>selections = lastSelections (selectionsHistory h)\<rparr>]))"
proof (intro conjI impI)
  assume "reachable s \<and> documentsHistory s documentId = Some h"
  then have "length (undoStack h) + length (redoStack h) \<le> MAX_STACK_SIZE"
    using reachable_within_bound within_boundD by blast
  then show "length (undoStack h) \<le> 999"
    by (simp add: MAX_STACK_SIZE_def)
next
  assume a: "reachable s \<and> documentsHistory (state_of (cursorRedo s)) documentId = Some h'"
  then have "reachable (state_of (cursorRedo s))"
    by (blast intro: reachable.redone)
  with a have "length (undoStack h') + length (redoStack h') \<le> MAX_STACK_SIZE"
    using reachable_within_bound within_boundD by blast
  then show "length (undoStack h') \<le> 999"
    by (simp add: MAX_STACK_SIZE_def)
next
  assume a: "documentsHistory s (uri (document (textEditor e))) = Some h \<and> undoRedoCounter h = 0
        \<and> commits now e h \<and> length (undoStack h) = 999
        \<and> \<not> same_ranges (lastSelections (selectionsHistory h)) (selections (last (undoStack h)))"
  then have h: "documentsHistory s (uri (document (textEditor e))) = Some h"
    and z: "undoRedoCounter h = 0" by simp_all
  let ?h'' = "h\<lparr>undoStack := tl (undoStack h) @ [\<lparr>selections = lastSelections (selectionsHistory h)\<rparr>],
                 redoStack := [],
                 selectionsHistory :=
                   shifted (selectionsHistory h) (eventSelections e) (version (document (textEditor e))),
                 lastSelectionsTimestamp := now\<rparr>"
  from a have t: "trimmed (deduped_push (undoStack h) (lastSelections (selectionsHistory h)))
      = tl (undoStack h) @ [\<lparr>selections = lastSelections (selectionsHistory h)\<rparr>]"
    by (cases "undoStack h") (simp_all add: deduped_push_def trimmed_def MAX_STACK_SIZE_def)
  from a have c: "commits now e h" by simp
  have "handleSelectionChange now e s =
          Returned (s\<lparr>documentsHistory :=
            (documentsHistory s)(uri (document (textEditor e)) \<mapsto> ?h'')\<rparr>)"
    unfolding handle_unsuppressed [OF h z] by (simp add: c t)
  moreover have "undoStack ?h'' =
      tl (undoStack h) @ [\<lparr>selections = lastSelections (selectionsHistory h)\<rparr>]"
    by simp
  ultimately show "\<exists>h''. handleSelectionChange now e s =
                Returned (s\<lparr>documentsHistory :=
                  (documentsHistory s)(uri (document (textEditor e)) \<mapsto> h'')\<rparr>)
              \<and> undoStack h'' =
                  tl (undoStack h) @ [\<lparr>selections = lastSelections (selectionsHistory h)\<rparr>]"
    by blast
qed

text \<open>A state reached by an initialization, a selection change and an undo; the redo
  from it; and a commit on a stack of 999 entries.\<close>

theorem undo_stack_never_exceeds_999_witness:
  "reachable (ex_state (Some ((ex_history [] [cursorAt 0 2] [] [\<lparr>selections = [cursorAt 0 4]\<rparr>])
        \<lparr>lastSelectionsTimestamp := 5000, undoRedoCounter := 1\<rparr>)) [cursorAt 0 2])
   \<and> cursorRedo (ex_state (Some ((ex_history [] [cursorAt 0 2] [] [\<lparr>selections = [cursorAt 0 4]\<rparr>])
        \<lparr>lastSelectionsTimestamp := 5000, undoRedoCounter := 1\<rparr>)) [cursorAt 0 2])
     = Returned (ex_state (Some ((ex_history [] [cursorAt 0 4] [\<lparr>selections = [cursorAt 0 2]\<rparr>] [])
        \<lparr>lastSelectionsTimestamp := 5000, undoRedoCounter := 2\<rparr>)) [cursorAt 0 4])
   \<and> length (undoStack (ex_history [] [cursorAt 0 4] [\<lparr>selections = [cursorAt 0 2]\<rparr>] [])) \<le> 999
   \<and> (\<exists>h''. handleSelectionChange 5000 (ex_event [cursorAt 0 4])
              (ex_state (Some (ex_history [cursorAt 0 2] [cursorAt 0 2]
                 (replicate 999 \<lparr>selections = [cursorAt 9 9]\<rparr>) [])) [cursorAt 0 4])
            = Returned (ex_state (Some h'') [cursorAt 0 4])
          \<and> undoStack h'' =
              replicate 998 \<lparr>selections = [cursorAt 9 9]\<rparr> @ [\<lparr>selections = [cursorAt 0 2]\<rparr>])"
proof -
  let ?id = "''untitled:Untitled-1''"
  let ?h2 = "(ex_history [] [cursorAt 0 2] [] [\<lparr>selections = [cursorAt 0 4]\<rparr>])
        \<lparr>lastSelectionsTimestamp := 5000, undoRedoCounter := 1\<rparr>"
  let ?s2 = "ex_state (Some ?h2) [cursorAt 0 2]"
  let ?h3 = "(ex_history [] [cursorAt 0 4] [\<lparr>selections = [cursorAt 0 2]\<rparr>] [])
        \<lparr>lastSelectionsTimestamp := 5000, undoRedoCounter := 2\<rparr>"
  let ?h9 = "ex_history [cursorAt 0 2] [cursorAt 0 2] (replicate 999 \<lparr>selections = [cursorAt 9 9]\<rparr>) []"
  let ?s9 = "ex_state (Some ?h9) [cursorAt 0 4]"
  let ?e = "ex_event [cursorAt 0 4]"
  have "documentsHistory (state_of (cursorRedo ?s2)) ?id = Some ?h3"
    by (subst ex_redo) (simp add: ex_state_def)
  with ex_reachable_after_undo
  have r: "reachable ?s2 \<and> documentsHistory (state_of (cursorRedo ?s2)) ?id = Some ?h3"
    by (rule conjI)
  have "length (undoStack ?h3) \<le> 999"
    using undo_stack_never_exceeds_999 [of ?s2 ?id _ ?h3] r by blast
  then have bound:
    "length (undoStack (ex_history [] [cursorAt 0 4] [\<lparr>selections = [cursorAt 0 2]\<rparr>] [])) \<le> 999"
    by (simp add: ex_history_def)
  have ne: "\<not> same_ranges [cursorAt 0 2] [cursorAt 9 9]"
    by (simp add: same_ranges_def sel_start_def sel_end_def sel_range_def newRange_def
        cursorAt_def pos_def)
  have pre: "documentsHistory ?s9 (uri (document (textEditor ?e))) = Some ?h9
        \<and> undoRedoCounter ?h9 = 0 \<and> commits 5000 ?e ?h9 \<and> length (undoStack ?h9) = 999
        \<and> \<not> same_ranges (lastSelections (selectionsHistory ?h9)) (selections (last (undoStack ?h9)))"
    by (simp add: commits_ex ne ex_history_def)
       (simp add: ex_state_def ex_event_def ex_editor_def ex_document_def)
  from undo_stack_never_exceeds_999 [of ?s9 _ ?h9 _ ?e 5000] pre
  obtain h'' where "handleSelectionChange 5000 ?e ?s9 =
        Returned (?s9\<lparr>documentsHistory := (documentsHistory ?s9)(uri (document (textEditor ?e)) \<mapsto> h'')\<rparr>)"
    and "undoStack h'' = tl (undoStack ?h9) @ [\<lparr>selections = lastSelections (selectionsHistory ?h9)\<rparr>]"
    by blast
  then have "handleSelectionChange 5000 ?e ?s9 = Returned (ex_state (Some h'') [cursorAt 0 4])
      \<and> undoStack h'' = replicate 998 \<lparr>selections = [cursorAt 9 9]\<rparr> @ [\<lparr>selections = [cursorAt 0 2]\<rparr>]"
    by (simp add: ex_history_def)
       (simp add: ex_state_def ex_event_def ex_editor_def ex_document_def fun_eq_iff)
  then have evict: "\<exists>h''. handleSelectionChange 5000 ?e ?s9 = Returned (ex_state (Some h'') [cursorAt 0 4])
      \<and> undoStack h'' = replicate 998 \<lparr>selections = [cursorAt 9 9]\<rparr> @ [\<lparr>selections = [cursorAt 0 2]\<rparr>]"
    by (rule exI)
  show ?thesis
    by (intro conjI) (rule ex_reachable_after_undo, rule ex_redo, rule bound, rule evict)
qed

subsection \<open>C4: the deduplication rule\<close>

text \<open>
  C4, as claimed: a push is skipped exactly when the new list and the top of the stack have
  the same length and, index by index, equal anchors and equal actives, so that a list which
  differs from the top only in the direction of a selection is pushed. On the code this
  fails: \<^verbatim>\<open>areSelectionsEqual\<close> compares with \<^verbatim>\<open>Selection.isEqual\<close>, which is the \<^verbatim>\<open>isEqual\<close> of
  \<^verbatim>\<open>Range\<close> and reads start and end. The selection from (0,5) back to (0,2) is not pushed on
  a stack whose top is the selection from (0,2) to (0,5), on either stack.
\<close>

theorem reversed_selection_is_not_pushed:
  "\<not> spec_structurally_equal
       [\<lparr>anchor = pos 0 5, active = pos 0 2\<rparr>] [\<lparr>anchor = pos 0 2, active = pos 0 5\<rparr>]
   \<and> pushIntoUndoStack
       (ex_history [] [] [\<lparr>selections = [\<lparr>anchor = pos 0 2, active = pos 0 5\<rparr>]\<rparr>] [])
       [\<lparr>anchor = pos 0 5, active = pos 0 2\<rparr>]
     = Inr (ex_history [] [] [\<lparr>selections = [\<lparr>anchor = pos 0 2, active = pos 0 5\<rparr>]\<rparr>] [])
   \<and> pushIntoRedoStack
       (ex_history [] [] [] [\<lparr>selections = [\<lparr>anchor = pos 0 2, active = pos 0 5\<rparr>]\<rparr>])
       [\<lparr>anchor = pos 0 5, active = pos 0 2\<rparr>]
     = Inr (ex_history [] [] [] [\<lparr>selections = [\<lparr>anchor = pos 0 2, active = pos 0 5\<rparr>]\<rparr>])"
  by (simp add: spec_structurally_equal_def pushIntoUndoStack_eq pushIntoRedoStack_eq
      deduped_push_def same_ranges_def sel_start_def sel_end_def sel_range_def newRange_def
      isBefore_def pos_def ex_history_def)

text \<open>
  C4, as the code has it: a push on the undo or the redo stack never throws; it is skipped
  exactly when the stack is not empty and the new list covers the same ranges as the top
  (the same length and, index by index, the same start and the same end), and appends a copy
  of the list otherwise. A list with selections reversed covers the same ranges, and so
  does a list with the same anchors and actives.
\<close>

theorem push_is_skipped_iff_top_covers_same_ranges:
  "pushIntoUndoStack h sels =
     Inr (if undoStack h \<noteq> [] \<and> same_ranges sels (selections (last (undoStack h))) then h
          else h\<lparr>undoStack := undoStack h @ [\<lparr>selections = sels\<rparr>]\<rparr>)
   \<and> pushIntoRedoStack h sels =
     Inr (if redoStack h \<noteq> [] \<and> same_ranges sels (selections (last (redoStack h))) then h
          else h\<lparr>redoStack := redoStack h @ [\<lparr>selections = sels\<rparr>]\<rparr>)
   \<and> same_ranges (map reversed sels) sels
   \<and> (spec_structurally_equal sels sels' \<longrightarrow> same_ranges sels sels')"
  by (simp add: pushIntoUndoStack_eq pushIntoRedoStack_eq deduped_push_def same_ranges_reversed
      structurally_equal_same_ranges)

theorem push_is_skipped_iff_top_covers_same_ranges_witness:
  "pushIntoUndoStack (ex_history [] [] [\<lparr>selections = [cursorAt 0 2]\<rparr>] []) [cursorAt 0 3]
     = Inr (ex_history [] [] [\<lparr>selections = [cursorAt 0 2]\<rparr>, \<lparr>selections = [cursorAt 0 3]\<rparr>] [])
   \<and> pushIntoRedoStack (ex_history [] [] [] [\<lparr>selections = [cursorAt 0 2]\<rparr>]) [cursorAt 0 2]
     = Inr (ex_history [] [] [] [\<lparr>selections = [cursorAt 0 2]\<rparr>])
   \<and> same_ranges (map reversed [\<lparr>anchor = pos 0 2, active = pos 0 5\<rparr>])
        [\<lparr>anchor = pos 0 2, active = pos 0 5\<rparr>]"
  using push_is_skipped_iff_top_covers_same_ranges
          [of "ex_history [] [] [\<lparr>selections = [cursorAt 0 2]\<rparr>] []" "[cursorAt 0 3]"]
        push_is_skipped_iff_top_covers_same_ranges
          [of "ex_history [] [] [] [\<lparr>selections = [cursorAt 0 2]\<rparr>]" "[cursorAt 0 2]" "[cursorAt 0 2]"]
        push_is_skipped_iff_top_covers_same_ranges
          [of _ "[\<lparr>anchor = pos 0 2, active = pos 0 5\<rparr>]"]
  by (simp add: same_ranges_def sel_start_def sel_end_def sel_range_def newRange_def
      isBefore_def pos_def cursorAt_def ex_history_def spec_structurally_equal_def)

subsection \<open>C5: the same snapshot twice\<close>

text \<open>
  C5, as claimed: the same selections with the same document version, delivered in two
  consecutive unsuppressed events with no significant change between them, grow the undo
  stack by at most one entry. On the code this fails: the listener also commits when more
  than 4000 ms have passed. From a window whose last cursor is at (0,2), the cursor (0,4)
  delivered at 5000 and again at 10000 pushes (0,2) and then (0,4), two entries, although
  the classifier returns false for the second event.
\<close>

theorem two_identical_events_grow_the_stack_by_two:
  "handleSelectionChange 5000 (ex_event [cursorAt 0 4])
     (ex_state (Some (ex_history [cursorAt 0 2] [cursorAt 0 2] [] [])) [cursorAt 0 4])
   = Returned (ex_state
       (Some ((ex_history [cursorAt 0 2] [cursorAt 0 4] [\<lparr>selections = [cursorAt 0 2]\<rparr>] [])
                \<lparr>lastSelectionsTimestamp := 5000\<rparr>)) [cursorAt 0 4])
   \<and> isLastSelectionsChangeSignificant
       (selectionsHistory (ex_history [cursorAt 0 2] [cursorAt 0 4] [] [])) [cursorAt 0 4] 3
     = Inr False
   \<and> handleSelectionChange 10000 (ex_event [cursorAt 0 4])
     (ex_state
       (Some ((ex_history [cursorAt 0 2] [cursorAt 0 4] [\<lparr>selections = [cursorAt 0 2]\<rparr>] [])
                \<lparr>lastSelectionsTimestamp := 5000\<rparr>)) [cursorAt 0 4])
   = Returned (ex_state
       (Some ((ex_history [cursorAt 0 4] [cursorAt 0 4]
                 [\<lparr>selections = [cursorAt 0 2]\<rparr>, \<lparr>selections = [cursorAt 0 4]\<rparr>] [])
                \<lparr>lastSelectionsTimestamp := 10000\<rparr>)) [cursorAt 0 4])"
proof (intro conjI)
  show "isLastSelectionsChangeSignificant
       (selectionsHistory (ex_history [cursorAt 0 2] [cursorAt 0 4] [] [])) [cursorAt 0 4] 3
     = Inr False"
    by code_simp
  have ne: "\<not> same_ranges [cursorAt 0 4] [cursorAt 0 2]"
    by (simp add: same_ranges_def sel_start_def sel_end_def sel_range_def newRange_def
        cursorAt_def pos_def)
  show "handleSelectionChange 5000 (ex_event [cursorAt 0 4])
     (ex_state (Some (ex_history [cursorAt 0 2] [cursorAt 0 2] [] [])) [cursorAt 0 4])
   = Returned (ex_state
       (Some ((ex_history [cursorAt 0 2] [cursorAt 0 4] [\<lparr>selections = [cursorAt 0 2]\<rparr>] [])
                \<lparr>lastSelectionsTimestamp := 5000\<rparr>)) [cursorAt 0 4])"
    by (subst handle_ex)
       (simp_all add: commits_ex ex_history_def deduped_push_def trimmed_def shifted_def
          MAX_STACK_SIZE_def)
  show "handleSelectionChange 10000 (ex_event [cursorAt 0 4])
     (ex_state
       (Some ((ex_history [cursorAt 0 2] [cursorAt 0 4] [\<lparr>selections = [cursorAt 0 2]\<rparr>] [])
                \<lparr>lastSelectionsTimestamp := 5000\<rparr>)) [cursorAt 0 4])
   = Returned (ex_state
       (Some ((ex_history [cursorAt 0 4] [cursorAt 0 4]
                 [\<lparr>selections = [cursorAt 0 2]\<rparr>, \<lparr>selections = [cursorAt 0 4]\<rparr>] [])
                \<lparr>lastSelectionsTimestamp := 10000\<rparr>)) [cursorAt 0 4])"
    by (subst handle_ex)
       (simp_all add: commits_ex ex_history_def deduped_push_def trimmed_def shifted_def
          MAX_STACK_SIZE_def ne)
qed

text \<open>
  C5, as the code has it: when the second of two consecutive unsuppressed events with the
  same selections and document version comes no more than 4000 ms after the first and the
  classifier returns false for it, it returns normally and leaves the undo stack as the
  first event left it, so the two events grow the stack by at most one entry.
\<close>

theorem repeated_snapshot_within_four_seconds_grows_by_at_most_one:
  assumes "documentsHistory s (uri (document (textEditor e))) = Some h"
    and "undoRedoCounter h = 0"
    and "handleSelectionChange t1 e s = Returned s1"
    and "documentsHistory s1 (uri (document (textEditor e))) = Some h1"
    and "t2 - t1 \<le> 4000"
    and "isLastSelectionsChangeSignificant (selectionsHistory h1) (eventSelections e)
           (version (document (textEditor e))) = Inr False"
  shows "\<exists>s2 h2. handleSelectionChange t2 e s1 = Returned s2
     \<and> documentsHistory s2 (uri (document (textEditor e))) = Some h2
     \<and> undoStack h2 = undoStack h1
     \<and> length (undoStack h2) \<le> length (undoStack h) + 1"
proof -
  let ?id = "uri (document (textEditor e))"
  let ?w = "shifted (selectionsHistory h) (eventSelections e) (version (document (textEditor e)))"
  have h1: "h1 = (if commits t1 e h
        then h\<lparr>undoStack := trimmed (deduped_push (undoStack h) (lastSelections (selectionsHistory h))),
               redoStack := []\<rparr>
        else h)\<lparr>selectionsHistory := ?w, lastSelectionsTimestamp := t1\<rparr>"
    using assms(3,4) unfolding handle_unsuppressed [OF assms(1,2)] by auto
  have len1: "length (undoStack h1) \<le> length (undoStack h) + 1"
    using length_trimmed [of "deduped_push (undoStack h) (lastSelections (selectionsHistory h))"]
      length_deduped_push [of "undoStack h" "lastSelections (selectionsHistory h)"]
    by (simp add: h1)
  have c1: "undoRedoCounter h1 = 0"
    using assms(2) by (simp add: h1)
  have nc: "\<not> commits t2 e h1"
    using assms(5,6) by (simp add: commits_def FOUR_SECONDS_def h1)
  show ?thesis
    unfolding handle_unsuppressed [OF assms(4) c1]
    using nc len1 by simp
qed

theorem repeated_snapshot_within_four_seconds_grows_by_at_most_one_witness:
  "handleSelectionChange 6000 (ex_event [cursorAt 0 4])
     (ex_state
       (Some ((ex_history [cursorAt 0 2] [cursorAt 0 4] [\<lparr>selections = [cursorAt 0 2]\<rparr>] [])
                \<lparr>lastSelectionsTimestamp := 5000\<rparr>)) [cursorAt 0 4])
   = Returned (ex_state
       (Some ((ex_history [cursorAt 0 4] [cursorAt 0 4] [\<lparr>selections = [cursorAt 0 2]\<rparr>] [])
                \<lparr>lastSelectionsTimestamp := 6000\<rparr>)) [cursorAt 0 4])"
proof -
  let ?e = "ex_event [cursorAt 0 4]"
  let ?h = "ex_history [cursorAt 0 2] [cursorAt 0 2] [] []"
  let ?s = "ex_state (Some ?h) [cursorAt 0 4]"
  let ?h1 = "(ex_history [cursorAt 0 2] [cursorAt 0 4] [\<lparr>selections = [cursorAt 0 2]\<rparr>] [])
                \<lparr>lastSelectionsTimestamp := 5000\<rparr>"
  let ?s1 = "ex_state (Some ?h1) [cursorAt 0 4]"
  have a: "documentsHistory ?s (uri (document (textEditor ?e))) = Some ?h"
    by (simp add: ex_state_def ex_event_def ex_editor_def ex_document_def)
  have b: "undoRedoCounter ?h = 0"
    by (simp add: ex_history_def)
  have c: "handleSelectionChange 5000 ?e ?s = Returned ?s1"
    by (subst handle_ex)
       (simp_all add: commits_ex ex_history_def deduped_push_def trimmed_def shifted_def
          MAX_STACK_SIZE_def)
  have d: "documentsHistory ?s1 (uri (document (textEditor ?e))) = Some ?h1"
    by (simp add: ex_state_def ex_event_def ex_editor_def ex_document_def)
  have e: "(6000::int) - 5000 \<le> 4000" by simp
  have f: "isLastSelectionsChangeSignificant (selectionsHistory ?h1) (eventSelections ?e)
             (version (document (textEditor ?e))) = Inr False"
    by (simp add: classifier_decides spec_isSignificant_def ex_history_def ex_event_def
        ex_editor_def ex_document_def cursorAt_def pos_def)
  from repeated_snapshot_within_four_seconds_grows_by_at_most_one [OF a b c d e f]
  obtain s2 h2 where r: "handleSelectionChange 6000 ?e ?s1 = Returned s2"
    and "documentsHistory s2 (uri (document (textEditor ?e))) = Some h2"
    and "undoStack h2 = undoStack ?h1"
    by blast
  have "handleSelectionChange 6000 ?e ?s1 = Returned (ex_state
       (Some ((ex_history [cursorAt 0 4] [cursorAt 0 4] [\<lparr>selections = [cursorAt 0 2]\<rparr>] [])
                \<lparr>lastSelectionsTimestamp := 6000\<rparr>)) [cursorAt 0 4])"
    by (subst handle_ex)
       (simp_all add: commits_ex ex_history_def deduped_push_def trimmed_def shifted_def
          MAX_STACK_SIZE_def spec_isSignificant_def cursorAt_def pos_def)
  with r show ?thesis by simp
qed

subsection \<open>C6: a document without a history\<close>

text \<open>
  C6. With an active editor whose document has no history, redo throws and leaves the state
  as it was; undo returns normally, having given the document its initial history (empty
  stacks, a window with no previous selections and the selections of the editor as the last
  ones, counter zero, the timestamp of the call) and changed nothing else.
\<close>

theorem redo_throws_and_undo_initializes_without_history:
  assumes "activeTextEditor s = Some ed"
    and "documentsHistory s (uri (document ed)) = None"
  shows "cursorRedo s = Threw Error s
       \<and> cursorUndo now s =
           Returned (s\<lparr>documentsHistory := (documentsHistory s)(uri (document ed) \<mapsto>
             \<lparr>selectionsHistory =
                \<lparr>previousOfLastSelections = [],
                 previousOfLastDocumentVersion = version (document ed),
                 lastSelections = editorSelections ed,
                 lastDocumentVersion = version (document ed)\<rparr>,
              undoStack = [], redoStack = [],
              lastSelectionsTimestamp = now, undoRedoCounter = 0\<rparr>)\<rparr>)"
  using assms
  by (simp add: cursorUndo_def cursorRedo_def getDocumentId_def pop_def initiateUndoHistory_def
      getInitialDocumentHistory_def getInitialSelectionsHistory_def)

theorem redo_throws_and_undo_initializes_without_history_witness:
  "cursorRedo (ex_state None [cursorAt 1 0]) = Threw Error (ex_state None [cursorAt 1 0])
   \<and> cursorUndo 0 (ex_state None [cursorAt 1 0])
     = Returned (ex_state (Some (ex_history [] [cursorAt 1 0] [] [])) [cursorAt 1 0])"
proof -
  let ?s = "ex_state None [cursorAt 1 0]"
  have a: "activeTextEditor ?s = Some (ex_editor [cursorAt 1 0])"
    by (simp add: ex_state_def)
  have b: "documentsHistory ?s (uri (document (ex_editor [cursorAt 1 0]))) = None"
    by (simp add: ex_state_def ex_editor_def ex_document_def)
  show ?thesis
    using redo_throws_and_undo_initializes_without_history [OF a b, of 0]
    by (simp add: ex_state_def ex_editor_def ex_document_def ex_history_def fun_eq_iff)
qed

subsection \<open>C7: nothing to undo, nothing to redo\<close>

text \<open>
  C7. With an active editor whose document has a history, undo on an empty undo stack and
  redo on an empty redo stack return normally and leave the whole state as it was: both
  stacks, the window, the counter, the timestamp and the selections of the editor.
\<close>

theorem empty_stack_is_a_noop:
  assumes "activeTextEditor s = Some ed"
    and "documentsHistory s (uri (document ed)) = Some h"
  shows "(undoStack h = [] \<longrightarrow> cursorUndo now s = Returned s)
       \<and> (redoStack h = [] \<longrightarrow> cursorRedo s = Returned s)"
  using assms by (simp add: cursorUndo_def cursorRedo_def getDocumentId_def pop_def)

theorem empty_stack_is_a_noop_witness:
  "cursorUndo 5000 (ex_state (Some (ex_history [] [cursorAt 1 0] [] [])) [cursorAt 1 0])
     = Returned (ex_state (Some (ex_history [] [cursorAt 1 0] [] [])) [cursorAt 1 0])
   \<and> cursorRedo (ex_state (Some (ex_history [] [cursorAt 1 0] [] [])) [cursorAt 1 0])
     = Returned (ex_state (Some (ex_history [] [cursorAt 1 0] [] [])) [cursorAt 1 0])"
proof -
  let ?h = "ex_history [] [cursorAt 1 0] [] []"
  let ?s = "ex_state (Some ?h) [cursorAt 1 0]"
  have a: "activeTextEditor ?s = Some (ex_editor [cursorAt 1 0])"
    by (simp add: ex_state_def)
  have b: "documentsHistory ?s (uri (document (ex_editor [cursorAt 1 0]))) = Some ?h"
    by (simp add: ex_state_def ex_editor_def ex_document_def)
  have c: "undoStack ?h = []" "redoStack ?h = []"
    by (simp_all add: ex_history_def)
  show ?thesis
    using empty_stack_is_a_noop [OF a b, of 5000] c by simp
qed

subsection \<open>C8: a suppressed event\<close>

text \<open>
  C8. A selection change delivered while the counter of the document is positive returns
  normally and changes nothing but that counter, which goes down by one: the stacks, the
  window and the timestamp of the document, the histories of the other documents, the
  editor and the reveal calls are as before.
\<close>

theorem suppressed_event_only_decrements_counter:
  assumes "documentsHistory s (uri (document (textEditor e))) = Some h"
    and "undoRedoCounter h > 0"
  shows "handleSelectionChange now e s =
     Returned (s\<lparr>documentsHistory := (documentsHistory s)(uri (document (textEditor e)) \<mapsto>
       h\<lparr>undoRedoCounter := undoRedoCounter h - 1\<rparr>)\<rparr>)"
  using assms by (rule handle_suppressed)

theorem suppressed_event_only_decrements_counter_witness:
  "handleSelectionChange 5000 (ex_event [cursorAt 20 0])
     (ex_state (Some ((ex_history [] [cursorAt 1 0] [] [])\<lparr>undoRedoCounter := 1\<rparr>)) [cursorAt 20 0])
   = Returned (ex_state (Some (ex_history [] [cursorAt 1 0] [] [])) [cursorAt 20 0])"
proof -
  let ?h = "(ex_history [] [cursorAt 1 0] [] [])\<lparr>undoRedoCounter := 1\<rparr>"
  let ?s = "ex_state (Some ?h) [cursorAt 20 0]"
  have a: "documentsHistory ?s (uri (document (textEditor (ex_event [cursorAt 20 0])))) = Some ?h"
    by (simp add: ex_state_def ex_event_def ex_editor_def ex_document_def)
  have b: "undoRedoCounter ?h > 0" by simp
  show ?thesis
    using suppressed_event_only_decrements_counter [OF a b, of 5000]
    by (simp add: ex_state_def ex_event_def ex_editor_def ex_document_def ex_history_def
        fun_eq_iff)
qed

subsection \<open>C9: revealing the cursor\<close>

text \<open>
  C9 says that a cursor within 15 lines above or below a visible range, and in none, is
  revealed minimally. \<^verbatim>\<open>isCursorNearlyVisibleInRange\<close> moves the two ends of the visible
  range by 15 lines and keeps their characters, so on the last line of the widened range
  only the positions up to the character of the visible end count. With lines 0 to 10
  visible and line 10 three characters long, the cursor at (25,5), 15 lines below the range
  and a valid position of the document, is revealed in the center, while the cursor at
  (25,3) on the same line is revealed minimally.
\<close>

theorem cursor_fifteen_lines_below_is_revealed_in_center:
  "revealActiveCursor (ex_editor [cursorAt 25 5])
     = Inr [(\<lparr>range_start = pos 25 5, range_end = pos 25 5\<rparr>, InCenter)]
   \<and> revealActiveCursor (ex_editor [cursorAt 25 3])
     = Inr [(\<lparr>range_start = pos 25 3, range_end = pos 25 3\<rparr>, Default)]
   \<and> validatePosition ex_document (pos 25 5) = pos 25 5"
  by code_simp

subsection \<open>C10: the first change after a fresh window\<close>




end
